theory Spec2Isabelle
  imports Main "HOL-Library.Sublist"
begin

section \<open>Faults, findings and the result list\<close>

text \<open>
  The inspections are C code that aborts on a failed \<^verbatim>\<open>assert\<close> and faults when a
  string function (\<^verbatim>\<open>strlen\<close>, \<^verbatim>\<open>strcmp\<close>, \<^verbatim>\<open>strcasecmp\<close>) or a field access is handed a
  NULL pointer. Both are values of the model: a function that can abort or fault returns
  \<open>error + 'a\<close>, with \<open>Inl\<close> for the way the process dies. A pointer that may be NULL is an
  \<open>option\<close>. C strings are \<open>string\<close>; they never contain the NUL character.
\<close>

datatype error = AssertFail | NullDeref

datatype severity = RESULT_OK | RESULT_INFO | RESULT_VERIFY | RESULT_BAD | RESULT_FATAL

datatype waiverauth = NOT_WAIVABLE | WAIVABLE_BY_ANYONE | WAIVABLE_BY_SECURITY

datatype inspection_header = HEADER_LICENSE | HEADER_METADATA | HEADER_KMOD | HEADER_UPSTREAM

datatype remedy_key =
    REMEDY_LICENSE | REMEDY_LICENSEDB
  | REMEDY_VENDOR | REMEDY_BUILDHOST | REMEDY_BADWORDS
  | REMEDY_KMOD_PARM | REMEDY_KMOD_DEPS | REMEDY_KMOD_ALIAS
  | REMEDY_UPSTREAM

record finding =
  f_severity :: severity
  f_waiver :: waiverauth
  f_header :: inspection_header
  f_msg :: "string option"
  f_details :: "string option"
  f_remedy :: "remedy_key option"

record results =
  found :: "finding list"
  worst_result :: severity

fun severity_rank :: "severity \<Rightarrow> nat" where
  "severity_rank RESULT_OK = 0"
| "severity_rank RESULT_INFO = 1"
| "severity_rank RESULT_VERIFY = 2"
| "severity_rank RESULT_BAD = 3"
| "severity_rank RESULT_FATAL = 4"

text \<open>
  Modelled from the spec: \<^verbatim>\<open>add_result\<close> is called by every inspection but is not among the
  source files. The spec (ResultSink) has it append the finding and raise the watermark to
  the maximum of the old watermark and the finding's severity, in the order
  OK < INFO < VERIFY < BAD < FATAL.
\<close>

definition add_result ::
  "'a results_scheme \<Rightarrow> severity \<Rightarrow> waiverauth \<Rightarrow> inspection_header \<Rightarrow> string option
     \<Rightarrow> string option \<Rightarrow> remedy_key option \<Rightarrow> 'a results_scheme" where
  "add_result ri sev waiver hdr msg details remedy =
     ri\<lparr> found := found ri @
            [\<lparr> f_severity = sev, f_waiver = waiver, f_header = hdr, f_msg = msg,
               f_details = details, f_remedy = remedy \<rparr>],
         worst_result :=
           (if severity_rank (worst_result ri) < severity_rank sev then sev
            else worst_result ri) \<rparr>"

section \<open>RPM headers as the inspections read them\<close>

text \<open>
  A \<^verbatim>\<open>Header\<close> is opaque to the inspections: they read string tags with
  \<^verbatim>\<open>headerGetString\<close> (NULL when the tag is absent), the \<^verbatim>\<open>Source\<close> array with
  \<^verbatim>\<open>headerGet\<close>, ask \<^verbatim>\<open>headerIsSource\<close>, and build the name-epoch-version-release-arch
  string with \<^verbatim>\<open>get_nevra\<close>. The record holds what each of these returns.
\<close>

datatype rpmtag =
    RPMTAG_NAME | RPMTAG_VERSION | RPMTAG_LICENSE | RPMTAG_VENDOR | RPMTAG_BUILDHOST
  | RPMTAG_SUMMARY | RPMTAG_DESCRIPTION

record header =
  name_tag :: "string option"
  version_tag :: "string option"
  license_tag :: "string option"
  vendor_tag :: "string option"
  buildhost_tag :: "string option"
  summary_tag :: "string option"
  description_tag :: "string option"
  source_tag :: "string list option"
  is_source_hdr :: bool
  nevra :: string

definition headerGetString :: "header \<Rightarrow> rpmtag \<Rightarrow> string option" where
  "headerGetString hdr tag =
     (case tag of
        RPMTAG_NAME \<Rightarrow> name_tag hdr
      | RPMTAG_VERSION \<Rightarrow> version_tag hdr
      | RPMTAG_LICENSE \<Rightarrow> license_tag hdr
      | RPMTAG_VENDOR \<Rightarrow> vendor_tag hdr
      | RPMTAG_BUILDHOST \<Rightarrow> buildhost_tag hdr
      | RPMTAG_SUMMARY \<Rightarrow> summary_tag hdr
      | RPMTAG_DESCRIPTION \<Rightarrow> description_tag hdr)"

definition headerIsSource :: "header \<Rightarrow> bool" where
  "headerIsSource hdr = is_source_hdr hdr"

definition get_nevra :: "header \<Rightarrow> string" where
  "get_nevra hdr = nevra hdr"

section \<open>The license inspection (inspect_license.c)\<close>

subsection \<open>The license database\<close>

text \<open>
  The database is a JSON object: license name to an object of properties, both walked in
  the order of the file by \<^verbatim>\<open>json_object_object_foreach\<close>. A property value is kept as
  what \<^verbatim>\<open>json_object_get_string\<close> returns for it: NULL for a JSON null, else its text.
\<close>

type_synonym license_props = "(string \<times> string option) list"

type_synonym licensedb = "(string \<times> license_props) list"

definition tolower :: "char \<Rightarrow> char" where
  "tolower c =
     (case map_of (zip ''ABCDEFGHIJKLMNOPQRSTUVWXYZ'' ''abcdefghijklmnopqrstuvwxyz'') c of
        None \<Rightarrow> c
      | Some l \<Rightarrow> l)"

definition strcasecmp_eq :: "string \<Rightarrow> string \<Rightarrow> bool" where
  \<comment> \<open>\<^verbatim>\<open>!strcasecmp(a, b)\<close>\<close>
  "strcasecmp_eq a b = (map tolower a = map tolower b)"

record license_fields =
  fedora_abbrev :: "string option"
  spdx_abbrev :: "string option"
  approved :: bool

text \<open>The inner loop of \<^verbatim>\<open>check_license_abbrev\<close>: collect the properties of one entry.\<close>

fun collect_props :: "license_props \<Rightarrow> license_fields \<Rightarrow> error + license_fields" where
  "collect_props [] f = Inr f"
| "collect_props ((prop, propval) # ps) f =
     (if prop = ''fedora_abbrev'' then collect_props ps (f\<lparr>fedora_abbrev := propval\<rparr>)
      else if prop = ''spdx_abbrev'' then collect_props ps (f\<lparr>spdx_abbrev := propval\<rparr>)
      else if prop = ''approved'' then
        (case propval of
           None \<Rightarrow> Inl NullDeref
         | Some v \<Rightarrow>
             if strcasecmp_eq v ''yes'' then collect_props ps (f\<lparr>approved := True\<rparr>)
             else collect_props ps f)
      else collect_props ps f)"

definition reset_fields :: license_fields where
  "reset_fields = \<lparr> fedora_abbrev = None, spdx_abbrev = None, approved = False \<rparr>"

text \<open>
  \<^verbatim>\<open>strlen(fedora_abbrev) == 0 && strlen(spdx_abbrev) == 0\<close>: the second length is taken
  only when the first is zero, and either faults on NULL.
\<close>

definition no_abbrevs :: "license_fields \<Rightarrow> error + bool" where
  "no_abbrevs f =
     (case fedora_abbrev f of
        None \<Rightarrow> Inl NullDeref
      | Some fa \<Rightarrow>
          if fa \<noteq> [] then Inr False
          else (case spdx_abbrev f of None \<Rightarrow> Inl NullDeref | Some sa \<Rightarrow> Inr (sa = [])))"

text \<open>
  \<^verbatim>\<open>approved && (!strcmp(tag, fedora_abbrev) || !strcmp(tag, spdx_abbrev) || !strcmp(tag, license_name))\<close>,
  with C's left-to-right short circuit.
\<close>

definition whole_tag_match :: "string \<Rightarrow> string \<Rightarrow> license_fields \<Rightarrow> error + bool" where
  "whole_tag_match tag license_name f =
     (if \<not> approved f then Inr False
      else (case fedora_abbrev f of
              None \<Rightarrow> Inl NullDeref
            | Some fa \<Rightarrow>
                if tag = fa then Inr True
                else (case spdx_abbrev f of
                        None \<Rightarrow> Inl NullDeref
                      | Some sa \<Rightarrow> Inr (tag = sa \<or> tag = license_name))))"

text \<open>\<^verbatim>\<open>approved && (!strcmp(lic, fedora_abbrev) || !strcmp(lic, spdx_abbrev))\<close>.\<close>

definition abbrev_match :: "string \<Rightarrow> license_fields \<Rightarrow> error + bool" where
  "abbrev_match lic f =
     (if \<not> approved f then Inr False
      else (case fedora_abbrev f of
              None \<Rightarrow> Inl NullDeref
            | Some fa \<Rightarrow>
                if lic = fa then Inr True
                else (case spdx_abbrev f of
                        None \<Rightarrow> Inl NullDeref
                      | Some sa \<Rightarrow> Inr (lic = sa))))"

text \<open>
  The outer loop of \<^verbatim>\<open>check_license_abbrev\<close>. The result is the returned int and the value
  of \<^verbatim>\<open>*whole_match\<close> afterwards.
\<close>

fun scan_licdb :: "licensedb \<Rightarrow> string \<Rightarrow> string \<Rightarrow> bool \<Rightarrow> error + (int \<times> bool)" where
  "scan_licdb [] tag lic whole_match = Inr (0, whole_match)"
| "scan_licdb ((license_name, val) # rest) tag lic whole_match =
     (case collect_props val reset_fields of
        Inl e \<Rightarrow> Inl e
      | Inr f \<Rightarrow>
          (case no_abbrevs f of
             Inl e \<Rightarrow> Inl e
           | Inr True \<Rightarrow> scan_licdb rest tag lic whole_match
           | Inr False \<Rightarrow>
               (case whole_tag_match tag license_name f of
                  Inl e \<Rightarrow> Inl e
                | Inr True \<Rightarrow> Inr (0, True)
                | Inr False \<Rightarrow>
                    (case abbrev_match lic f of
                       Inl e \<Rightarrow> Inl e
                     | Inr True \<Rightarrow> Inr (1, whole_match)
                     | Inr False \<Rightarrow> scan_licdb rest tag lic whole_match))))"

text \<open>
  \<^verbatim>\<open>check_license_abbrev\<close> asserts \<^verbatim>\<open>lic != NULL\<close> before it looks at the database. The tag
  is never NULL here: \<^verbatim>\<open>is_valid_license\<close> has asserted so.
\<close>

definition check_license_abbrev ::
  "licensedb \<Rightarrow> string \<Rightarrow> string option \<Rightarrow> bool \<Rightarrow> error + (int \<times> bool)" where
  "check_license_abbrev licdb tag lic whole_match =
     (case lic of
        None \<Rightarrow> Inl AssertFail
      | Some l \<Rightarrow> scan_licdb licdb tag l whole_match)"

subsection \<open>Validating a license tag\<close>

text \<open>
  The parenthesis loop of \<^verbatim>\<open>is_valid_license\<close>; \<open>None\<close> is its \<^verbatim>\<open>return false\<close>, \<open>Some\<close>
  the balance when the loop ends. The counter is a C \<^verbatim>\<open>int\<close>; it stays within the
  length of the tag, so it is an \<open>int\<close> here.
\<close>

fun paren_scan :: "string \<Rightarrow> int \<Rightarrow> int option" where
  "paren_scan [] balance = Some balance"
| "paren_scan (c # cs) balance =
     (if balance < 0 then None
      else if c = CHR ''('' then paren_scan cs (balance + 1)
      else if c = CHR '')'' then paren_scan cs (balance - 1)
      else paren_scan cs balance)"

text \<open>
  One call \<^verbatim>\<open>strsep(&tagtokens, "() ")\<close> on a non-NULL \<^verbatim>\<open>tagtokens\<close>: the token up to the
  first delimiter, and the new value of \<^verbatim>\<open>tagtokens\<close> (NULL when no delimiter was found).
\<close>

fun strsep :: "string \<Rightarrow> string \<times> string option" where
  "strsep [] = ([], None)"
| "strsep (c # cs) =
     (if c \<in> set ''() '' then ([], Some cs)
      else (case strsep cs of (token, rest) \<Rightarrow> (c # token, rest)))"

text \<open>
  The tokens that the successive \<^verbatim>\<open>strsep\<close> calls of the while loop return before the
  NULL that ends it: the tag cut at every delimiter, empty tokens included.
\<close>

fun strsep_all :: "string \<Rightarrow> string list" where
  "strsep_all [] = [[]]"
| "strsep_all (c # cs) =
     (if c \<in> set ''() '' then [] # strsep_all cs
      else (case strsep_all cs of [] \<Rightarrow> [[c]] | token # rest \<Rightarrow> (c # token) # rest))"

definition is_boolean :: "string \<Rightarrow> bool" where
  "is_boolean token = (strcasecmp_eq token ''and'' \<or> strcasecmp_eq token ''or'')"

record tag_state =
  lic :: "string option"
  seen :: int
  valid :: int
  collect :: bool
  whole_match :: bool

datatype 'a flow = Returned bool | Running 'a

text \<open>
  The while loop over the tokens. \<open>Returned True\<close> is the \<^verbatim>\<open>return true\<close> on a whole
  match; \<open>Running\<close> carries the locals to the code after the loop.
\<close>

fun token_loop ::
  "licensedb \<Rightarrow> string \<Rightarrow> string list \<Rightarrow> tag_state \<Rightarrow> error + tag_state flow" where
  "token_loop licdb tag [] st = Inr (Running st)"
| "token_loop licdb tag (token # rest) st =
     (if token = [] then token_loop licdb tag rest st
      else
        let st1 = (if is_boolean token then st\<lparr>collect := False\<rparr> else st) in
        if collect st1 then
          (case lic st1 of
             None \<Rightarrow> token_loop licdb tag rest (st1\<lparr>lic := Some token, seen := seen st1 + 1\<rparr>)
           | Some l \<Rightarrow>
               token_loop licdb tag rest
                 (st1\<lparr>lic := Some (l @ '' '' @ token), seen := seen st1 - 1 + 1\<rparr>))
        else
          (case check_license_abbrev licdb tag (lic st1) (whole_match st1) of
             Inl e \<Rightarrow> Inl e
           | Inr (r, wm) \<Rightarrow>
               if wm then Inr (Returned True)
               else token_loop licdb tag rest
                      (st1\<lparr>valid := valid st1 + r, whole_match := wm, lic := None,
                           collect := True\<rparr>)))"

definition initial_tag_state :: tag_state where
  "initial_tag_state =
     \<lparr> lic = None, seen = 0, valid = 0, collect = True, whole_match = False \<rparr>"

text \<open>Everything \<^verbatim>\<open>is_valid_license\<close> does once the database is in memory.\<close>

definition validate_tag :: "licensedb \<Rightarrow> string \<Rightarrow> error + bool" where
  "validate_tag licdb tag =
     (case token_loop licdb tag (strsep_all tag) initial_tag_state of
        Inl e \<Rightarrow> Inl e
      | Inr (Returned b) \<Rightarrow> Inr b
      | Inr (Running st) \<Rightarrow>
          (case check_license_abbrev licdb tag (lic st) (whole_match st) of
             Inl e \<Rightarrow> Inl e
           | Inr (r, wm) \<Rightarrow> if wm then Inr True else Inr (seen st = valid st + r)))"

text \<open>
  What the license inspection asks of its surroundings: the file system and the JSON parser
  (\<open>read_licensedb\<close>: the parsed database of a path, or NULL when the file cannot be opened
  or parsed), \<^verbatim>\<open>access(path, F_OK|R_OK) == 0\<close>, the bad-word scan \<^verbatim>\<open>has_bad_word\<close> of the
  library (not among the source files), and the \<^verbatim>\<open>LICENSES_DIR\<close> macro of rpminspect.h.
\<close>

record libenv =
  has_bad_word :: "string \<Rightarrow> string list option \<Rightarrow> bool"

record license_env = libenv +
  read_licensedb :: "string \<Rightarrow> licensedb option"
  access_ok :: "string \<Rightarrow> bool"
  licenses_dir :: string

text \<open>
  \<^verbatim>\<open>is_valid_license\<close>. The static \<^verbatim>\<open>licdb\<close> is threaded through: \<open>None\<close> is NULL, and the
  function returns it as it leaves it.
\<close>

definition is_valid_license ::
  "license_env \<Rightarrow> licensedb option \<Rightarrow> string \<Rightarrow> string \<Rightarrow> (error + bool) \<times> licensedb option" where
  "is_valid_license env licdb licensedb tag =
     (case paren_scan tag 0 of
        None \<Rightarrow> (Inr False, licdb)
      | Some balance \<Rightarrow>
          if balance \<noteq> 0 then (Inr False, licdb)
          else
            (case (case licdb of None \<Rightarrow> read_licensedb env licensedb | Some db \<Rightarrow> Some db) of
               None \<Rightarrow> (Inr False, None)
             | Some db \<Rightarrow> (validate_tag db tag, Some db)))"

subsection \<open>Files, peers and the run\<close>

text \<open>
  \<^verbatim>\<open>rpmfile_entry_t\<close> as the inspections read it; \<open>st_isreg\<close> is \<^verbatim>\<open>S_ISREG(st.st_mode)\<close>, and
  \<open>peer_file\<close> the file of the other build with the same local path, or NULL.
\<close>

record rpmfile =
  localpath :: string
  fullpath :: string
  rpm_header :: header
  st_isreg :: bool

record rpmfile_entry = rpmfile +
  peer_file :: "rpmfile option"

record rpmpeer_entry =
  after_rpm :: "string option"
  before_hdr :: "header option"
  after_hdr :: "header option"
  before_files :: "rpmfile_entry list option"
  after_files :: "rpmfile_entry list option"

text \<open>\<^verbatim>\<open>struct rpminspect\<close>: the result list and the settings the four inspections read.\<close>

record rpminspect = results +
  peers :: "rpmpeer_entry list"
  badwords :: "string list option"
  vendor :: "string option"
  buildhost_subdomain :: "string list option"
  vendor_data_dir :: string
  licensedb_name :: "string option"

text \<open>A \<^verbatim>\<open>%s\<close> of \<^verbatim>\<open>xasprintf\<close>; the C library prints a NULL string as \<^verbatim>\<open>(null)\<close>.\<close>

definition fmt_s :: "string option \<Rightarrow> string" where
  "fmt_s s = (case s of None \<Rightarrow> ''(null)'' | Some v \<Rightarrow> v)"

subsection \<open>One package, and the whole inspection\<close>

text \<open>
  \<^verbatim>\<open>check_peer_license\<close>: the returned int, the run with its new findings, and the static
  \<^verbatim>\<open>licdb\<close>.
\<close>

definition check_peer_license ::
  "license_env \<Rightarrow> rpminspect \<Rightarrow> licensedb option \<Rightarrow> string \<Rightarrow> header
     \<Rightarrow> error + (int \<times> rpminspect \<times> licensedb option)" where
  "check_peer_license env ri licdb actual_licensedb hdr =
     (case headerGetString hdr RPMTAG_LICENSE of
        None \<Rightarrow>
          Inr (1,
               add_result ri RESULT_BAD NOT_WAIVABLE HEADER_LICENSE
                 (Some (''Empty License Tag in '' @ get_nevra hdr)) None (Some REMEDY_LICENSE),
               licdb)
      | Some license \<Rightarrow>
          (case is_valid_license env licdb actual_licensedb license of
             (Inl e, _) \<Rightarrow> Inl e
           | (Inr is_valid, licdb') \<Rightarrow>
               let ri1 =
                     (if is_valid then
                        add_result ri RESULT_INFO NOT_WAIVABLE HEADER_LICENSE
                          (Some (''Valid License Tag in '' @ get_nevra hdr @ '': '' @ license))
                          None None
                      else
                        add_result ri RESULT_BAD NOT_WAIVABLE HEADER_LICENSE
                          (Some (''Invalid License Tag in '' @ get_nevra hdr @ '': '' @ license))
                          None (Some REMEDY_LICENSE));
                   ri2 =
                     (if has_bad_word env license (badwords ri) then
                        add_result ri1 RESULT_BAD NOT_WAIVABLE HEADER_LICENSE
                          (Some (''License Tag contains unprofessional language in ''
                                 @ get_nevra hdr @ '': '' @ license))
                          None (Some REMEDY_LICENSE)
                      else ri1)
               in Inr (1, ri2, licdb')))"

text \<open>
  The loop of \<^verbatim>\<open>inspect_license\<close> over the peers, with its counters \<^verbatim>\<open>good\<close> and
  \<^verbatim>\<open>seen\<close>. A peer with an after package carries its header; a NULL header handed to the
  RPM library is a fault.
\<close>

fun license_peers ::
  "license_env \<Rightarrow> string \<Rightarrow> rpmpeer_entry list \<Rightarrow> rpminspect \<times> licensedb option \<times> int \<times> int
     \<Rightarrow> error + (rpminspect \<times> licensedb option \<times> int \<times> int)" where
  "license_peers env actual_licensedb [] st = Inr st"
| "license_peers env actual_licensedb (peer # rest) (ri, licdb, good, n_seen) =
     (if after_rpm peer = None then
        license_peers env actual_licensedb rest (ri, licdb, good, n_seen)
      else
        (case after_hdr peer of
           None \<Rightarrow> Inl NullDeref
         | Some hdr \<Rightarrow>
             (case check_peer_license env ri licdb actual_licensedb hdr of
                Inl e \<Rightarrow> Inl e
              | Inr (ret, ri', licdb') \<Rightarrow>
                  license_peers env actual_licensedb rest (ri', licdb', good + ret, n_seen + 1))))"

text \<open>
  \<^verbatim>\<open>inspect_license\<close>: the returned bool, the run, and the static \<^verbatim>\<open>licdb\<close>, which
  \<^verbatim>\<open>free_licensedb\<close> resets to NULL. The message of the missing-database finding is the
  first argument of the \<^verbatim>\<open>strdup\<close> call that builds it.
\<close>

definition inspect_license ::
  "license_env \<Rightarrow> rpminspect \<Rightarrow> licensedb option \<Rightarrow> error + (bool \<times> rpminspect \<times> licensedb option)" where
  "inspect_license env ri licdb =
     (let actual_licensedb =
            vendor_data_dir ri @ ''/'' @ licenses_dir env @ ''/'' @ fmt_s (licensedb_name ri)
      in
        if licensedb_name ri = None \<or> \<not> access_ok env actual_licensedb then
          Inr (False,
               add_result ri RESULT_BAD NOT_WAIVABLE HEADER_LICENSE
                 (Some ''Missing license database: %s: %s'') None (Some REMEDY_LICENSEDB),
               licdb)
        else
          (case license_peers env actual_licensedb (peers ri) (ri, licdb, 0, 0) of
             Inl e \<Rightarrow> Inl e
           | Inr (ri', licdb', good, n_seen) \<Rightarrow>
               let result = (good = n_seen) in
                 Inr (result,
                      (if result then
                         add_result ri' RESULT_OK NOT_WAIVABLE HEADER_LICENSE None None None
                       else ri'),
                      None)))"

section \<open>The metadata inspection (inspect_metadata.c)\<close>

text \<open>
  Modelled from the spec: \<^verbatim>\<open>strsuffix\<close> and \<^verbatim>\<open>strprefix\<close> are string helpers of the library,
  not among the source files. The spec has the build host "end with" a configured suffix;
  the two are the suffix and prefix tests on strings.
\<close>

definition strsuffix :: "string \<Rightarrow> string \<Rightarrow> bool" where
  "strsuffix s suf = suffix suf s"

definition strprefix :: "string \<Rightarrow> string \<Rightarrow> bool" where
  "strprefix s pre = prefix pre s"

text \<open>
  \<^verbatim>\<open>valid_peers\<close> runs its checks one after the other; each block below is one of them, in
  the order of the source, taking the run and \<^verbatim>\<open>ret\<close> and returning both.
\<close>

definition vendor_check :: "rpminspect \<times> bool \<Rightarrow> header \<Rightarrow> rpminspect \<times> bool" where
  "vendor_check st after_h =
     (case st of (ri, ret) \<Rightarrow>
        let after_vendor = headerGetString after_h RPMTAG_VENDOR in
          (case vendor ri of
             None \<Rightarrow>
               (add_result ri RESULT_INFO NOT_WAIVABLE HEADER_METADATA
                  (Some (''Vendor not set in rpminspect.conf, ignoring Package Vendor \"''
                         @ fmt_s after_vendor @ ''\" in '' @ get_nevra after_h))
                  None (Some REMEDY_VENDOR),
                ret)
           | Some v \<Rightarrow>
               (case after_vendor of
                  None \<Rightarrow> (ri, ret)
                | Some av \<Rightarrow>
                    if av \<noteq> v then
                      (add_result ri RESULT_BAD NOT_WAIVABLE HEADER_METADATA
                         (Some (''Package Vendor \"'' @ av @ ''\" is not \"'' @ v @ ''\" in ''
                                @ get_nevra after_h))
                         None (Some REMEDY_VENDOR),
                       False)
                    else (ri, ret))))"

definition buildhost_check :: "rpminspect \<times> bool \<Rightarrow> header \<Rightarrow> rpminspect \<times> bool" where
  "buildhost_check st after_h =
     (case st of (ri, ret) \<Rightarrow>
        (case (headerGetString after_h RPMTAG_BUILDHOST, buildhost_subdomain ri) of
           (Some after_buildhost, Some subdomains) \<Rightarrow>
             if \<not> list_ex (strsuffix after_buildhost) subdomains then
               (add_result ri RESULT_BAD NOT_WAIVABLE HEADER_METADATA
                  (Some (''Package Build Host \"'' @ after_buildhost
                         @ ''\" is not within an expected build host subdomain in ''
                         @ get_nevra after_h))
                  None (Some REMEDY_BUILDHOST),
                False)
             else (ri, ret)
         | _ \<Rightarrow> (ri, ret)))"

definition summary_check ::
  "'e libenv_scheme \<Rightarrow> rpminspect \<times> bool \<Rightarrow> header \<Rightarrow> rpminspect \<times> bool" where
  "summary_check env st after_h =
     (case st of (ri, ret) \<Rightarrow>
        (case headerGetString after_h RPMTAG_SUMMARY of
           None \<Rightarrow> (ri, ret)
         | Some after_summary \<Rightarrow>
             if has_bad_word env after_summary (badwords ri) then
               (add_result ri RESULT_BAD NOT_WAIVABLE HEADER_METADATA
                  (Some (''Package Summary contains unprofessional language in ''
                         @ get_nevra after_h))
                  (Some (''Summary: '' @ after_summary)) (Some REMEDY_BADWORDS),
                False)
             else (ri, ret)))"

definition description_check ::
  "'e libenv_scheme \<Rightarrow> rpminspect \<times> bool \<Rightarrow> header \<Rightarrow> rpminspect \<times> bool" where
  "description_check env st after_h =
     (case st of (ri, ret) \<Rightarrow>
        (case headerGetString after_h RPMTAG_DESCRIPTION of
           None \<Rightarrow> (ri, ret)
         | Some after_description \<Rightarrow>
             if has_bad_word env after_description (badwords ri) then
               (add_result ri RESULT_BAD NOT_WAIVABLE HEADER_METADATA
                  (Some (''Package Description contains unprofessional language in ''
                         @ get_nevra after_h @ '':''))
                  (Some after_description) (Some REMEDY_BADWORDS),
                False)
             else (ri, ret)))"

text \<open>The vendor part of the before/after block: the three-way choice of \<^verbatim>\<open>msg\<close>.\<close>

definition vendor_drift :: "rpminspect \<times> bool \<Rightarrow> header \<Rightarrow> header \<Rightarrow> rpminspect \<times> bool" where
  "vendor_drift st before_h after_h =
     (case st of (ri, ret) \<Rightarrow>
        let after_name = headerGetString after_h RPMTAG_NAME;
            msg =
              (case (headerGetString before_h RPMTAG_VENDOR,
                     headerGetString after_h RPMTAG_VENDOR) of
                 (None, Some av) \<Rightarrow>
                   Some (''Gained Package Vendor \"'' @ av @ ''\" in '' @ fmt_s after_name)
               | (Some bv, None) \<Rightarrow>
                   Some (''Lost Package Vendor \"'' @ bv @ ''\" in '' @ fmt_s after_name)
               | (Some bv, Some av) \<Rightarrow>
                   if bv \<noteq> av then
                     Some (''Package Vendor changed from \"'' @ bv @ ''\" to \"'' @ av
                           @ ''\" in '' @ fmt_s after_name)
                   else None
               | (None, None) \<Rightarrow> None)
        in (case msg of
              None \<Rightarrow> (ri, ret)
            | Some m \<Rightarrow>
                (add_result ri RESULT_VERIFY WAIVABLE_BY_ANYONE HEADER_METADATA (Some m) None None,
                 False)))"

text \<open>
  \<^verbatim>\<open>strcmp(before_summary, after_summary)\<close> and the same for the description: neither
  pointer is tested before the comparison, which faults on NULL.
\<close>

definition summary_drift ::
  "rpminspect \<times> bool \<Rightarrow> header \<Rightarrow> header \<Rightarrow> error + rpminspect \<times> bool" where
  "summary_drift st before_h after_h =
     (case st of (ri, ret) \<Rightarrow>
        (case (headerGetString before_h RPMTAG_SUMMARY,
               headerGetString after_h RPMTAG_SUMMARY) of
           (Some before_summary, Some after_summary) \<Rightarrow>
             if before_summary \<noteq> after_summary then
               Inr (add_result ri RESULT_VERIFY WAIVABLE_BY_ANYONE HEADER_METADATA
                      (Some (''Package Summary change from \"'' @ before_summary @ ''\" to \"''
                             @ after_summary @ ''\" in ''
                             @ fmt_s (headerGetString after_h RPMTAG_NAME)))
                      None None,
                    False)
             else Inr (ri, ret)
         | _ \<Rightarrow> Inl NullDeref))"

definition description_drift ::
  "rpminspect \<times> bool \<Rightarrow> header \<Rightarrow> header \<Rightarrow> error + rpminspect \<times> bool" where
  "description_drift st before_h after_h =
     (case st of (ri, ret) \<Rightarrow>
        (case (headerGetString before_h RPMTAG_DESCRIPTION,
               headerGetString after_h RPMTAG_DESCRIPTION) of
           (Some before_description, Some after_description) \<Rightarrow>
             if before_description \<noteq> after_description then
               Inr (add_result ri RESULT_VERIFY WAIVABLE_BY_ANYONE HEADER_METADATA
                      (Some (''Package Description changed in ''
                             @ fmt_s (headerGetString after_h RPMTAG_NAME)))
                      (Some (''from:'' @ [CHR 0x0A, CHR 0x0A] @ before_description
                             @ [CHR 0x0A, CHR 0x0A] @ ''to:'' @ [CHR 0x0A, CHR 0x0A]
                             @ after_description))
                      None,
                    False)
             else Inr (ri, ret)
         | _ \<Rightarrow> Inl NullDeref))"

text \<open>\<^verbatim>\<open>valid_peers\<close>: the returned bool and the run with its new findings.\<close>

definition valid_peers ::
  "'e libenv_scheme \<Rightarrow> rpminspect \<Rightarrow> header option \<Rightarrow> header \<Rightarrow> error + bool \<times> rpminspect" where
  "valid_peers env ri before_h after_h =
     (let st =
            description_check env
              (summary_check env
                 (buildhost_check (vendor_check (ri, True) after_h) after_h) after_h)
              after_h
      in (case before_h of
            None \<Rightarrow> Inr (snd st, fst st)
          | Some bh \<Rightarrow>
              (case summary_drift (vendor_drift st bh after_h) bh after_h of
                 Inl e \<Rightarrow> Inl e
               | Inr st1 \<Rightarrow>
                   (case description_drift st1 bh after_h of
                      Inl e \<Rightarrow> Inl e
                    | Inr st2 \<Rightarrow> Inr (snd st2, fst st2)))))"

fun metadata_peers ::
  "'e libenv_scheme \<Rightarrow> rpmpeer_entry list \<Rightarrow> rpminspect \<times> bool \<Rightarrow> error + rpminspect \<times> bool" where
  "metadata_peers env [] st = Inr st"
| "metadata_peers env (peer # rest) (ri, good) =
     (if after_rpm peer = None then metadata_peers env rest (ri, good)
      else
        (case after_hdr peer of
           None \<Rightarrow> Inl NullDeref
         | Some hdr \<Rightarrow>
             (case valid_peers env ri (before_hdr peer) hdr of
                Inl e \<Rightarrow> Inl e
              | Inr (ok, ri') \<Rightarrow> metadata_peers env rest (ri', (if ok then good else False)))))"

definition inspect_metadata :: "'e libenv_scheme \<Rightarrow> rpminspect \<Rightarrow> error + bool \<times> rpminspect" where
  "inspect_metadata env ri =
     (case metadata_peers env (peers ri) (ri, True) of
        Inl e \<Rightarrow> Inl e
      | Inr (ri', good) \<Rightarrow>
          Inr (good,
               (if good then
                  add_result ri' RESULT_OK NOT_WAIVABLE HEADER_METADATA None None None
                else ri')))"

section \<open>The kernel module inspection (inspect_kmod.c)\<close>

text \<open>
  The file-scope statics \<^verbatim>\<open>sev\<close> and \<^verbatim>\<open>waiver\<close> of inspect_kmod.c, with their
  initialisers. They live as long as the process and are threaded through the calls.
\<close>

record kmod_statics =
  sev :: severity
  waiver :: waiverauth

definition kmod_statics_init :: kmod_statics where
  "kmod_statics_init = \<lparr> sev = RESULT_INFO, waiver = NOT_WAIVABLE \<rparr>"

text \<open>
  What the inspection asks of libkmod and of the library's module helpers, none of them
  among the source files. A module is known by its name and its info list (key and
  value pairs); \<open>kmod_new\<close> tells whether a context can be created,
  \<open>kmod_module_new_from_path\<close> is NULL for a file that is not a module, and
  \<open>kmod_module_get_info\<close> is NULL when reading the info fails. The two comparers return
  their result and what they store in \<^verbatim>\<open>lost\<close> and \<^verbatim>\<open>gain\<close>;
  \<open>compare_module_aliases\<close> returns its result and the calls it makes of the visitor: the
  alias, the before modules and the after modules of each call.
\<close>

type_synonym kmod_info = "(string \<times> string) list"

record kmod_env =
  kmod_new :: bool
  kmod_module_new_from_path :: "string \<Rightarrow> (string \<times> kmod_info option) option"
  compare_module_parameters ::
    "kmod_info \<Rightarrow> kmod_info \<Rightarrow> bool \<times> string list option \<times> string list option"
  compare_module_dependencies ::
    "kmod_info \<Rightarrow> kmod_info \<Rightarrow> bool \<times> string list option \<times> string list option"
  compare_module_aliases ::
    "string \<times> kmod_info \<Rightarrow> string \<times> kmod_info
       \<Rightarrow> bool \<times> (string \<times> string list \<times> string list) list"
  debug_path :: string
  kernel_modules_dir :: string
  kernel_module_filename_extension :: string

text \<open>\<^verbatim>\<open>strstr(haystack, needle) != NULL\<close>.\<close>

fun strstr :: "string \<Rightarrow> string \<Rightarrow> bool" where
  "strstr [] needle = (needle = [])"
| "strstr (c # cs) needle = (prefix needle (c # cs) \<or> strstr cs needle)"

text \<open>The visitor \<^verbatim>\<open>lost_alias\<close>: one finding per before module, then one per after module.\<close>

definition lost_alias ::
  "kmod_statics \<Rightarrow> rpminspect \<Rightarrow> string \<times> string list \<times> string list \<Rightarrow> rpminspect" where
  "lost_alias g ri call =
     (case call of (alias, before_modules, after_modules) \<Rightarrow>
        let ri1 =
              fold (\<lambda>entry r.
                      add_result r (sev g) (waiver g) HEADER_KMOD
                        (Some (''Kernel module '' @ [CHR 0x27] @ entry @ [CHR 0x27]
                               @ '' lost alias '' @ [CHR 0x27] @ alias @ [CHR 0x27]))
                        None (Some REMEDY_KMOD_ALIAS))
                   before_modules ri
        in
          fold (\<lambda>entry r.
                  add_result r (sev g) (waiver g) HEADER_KMOD
                    (Some (''Kernel module '' @ [CHR 0x27] @ entry @ [CHR 0x27]
                           @ '' gained alias '' @ [CHR 0x27] @ alias @ [CHR 0x27]))
                    None (Some REMEDY_KMOD_ALIAS))
               after_modules ri1)"

text \<open>
  One reporting loop of \<^verbatim>\<open>kmod_driver\<close>: a finding for each entry of a list that is neither
  NULL nor empty.
\<close>

definition report_entries ::
  "rpminspect \<Rightarrow> string list option \<Rightarrow> severity \<Rightarrow> waiverauth \<Rightarrow> (string \<Rightarrow> string)
     \<Rightarrow> remedy_key option \<Rightarrow> rpminspect" where
  "report_entries ri entries s w mk_msg remedy =
     (case entries of
        None \<Rightarrow> ri
      | Some es \<Rightarrow> fold (\<lambda>entry r. add_result r s w HEADER_KMOD (Some (mk_msg entry)) None remedy) es ri)"

text \<open>
  The second half of \<^verbatim>\<open>kmod_driver\<close>, from "Compute lost and gained module parameters"
  on: both info lists are in hand, and the statics are read, not written.
\<close>

definition kmod_compare ::
  "kmod_env \<Rightarrow> rpminspect \<Rightarrow> kmod_statics \<Rightarrow> rpmfile_entry \<Rightarrow> string \<times> kmod_info
     \<Rightarrow> string \<times> kmod_info \<Rightarrow> bool \<times> rpminspect" where
  "kmod_compare env ri g file before_kmod after_kmod =
     (case compare_module_parameters env (snd before_kmod) (snd after_kmod) of
        (result_parm, lost_parm, gain_parm) \<Rightarrow>
     (case compare_module_dependencies env (snd before_kmod) (snd after_kmod) of
        (result_deps, lost_deps, gain_deps) \<Rightarrow>
     (case compare_module_aliases env before_kmod after_kmod of
        (result_aliases, visits) \<Rightarrow>
          let ri1 = report_entries ri lost_parm (sev g) (waiver g)
                      (\<lambda>entry. ''Kernel module '' @ localpath file @ '' removes parameter ''
                                @ [CHR 0x27] @ entry @ [CHR 0x27])
                      (Some REMEDY_KMOD_PARM);
              ri2 = report_entries ri1 gain_parm RESULT_INFO NOT_WAIVABLE
                      (\<lambda>entry. ''Kernel module '' @ localpath file @ '' adds parameter ''
                                @ [CHR 0x27] @ entry @ [CHR 0x27])
                      None;
              ri3 = report_entries ri2 lost_deps (sev g) (waiver g)
                      (\<lambda>entry. ''Kernel module '' @ localpath file @ '' removes dependency ''
                                @ [CHR 0x27] @ entry @ [CHR 0x27])
                      (Some REMEDY_KMOD_DEPS);
              ri4 = report_entries ri3 gain_deps (sev g) (waiver g)
                      (\<lambda>entry. ''Kernel module '' @ localpath file @ '' adds dependency ''
                                @ [CHR 0x27] @ entry @ [CHR 0x27])
                      (Some REMEDY_KMOD_DEPS);
              ri5 = fold (\<lambda>visit r. lost_alias g r visit) visits ri4
          in (result_parm \<and> result_deps \<and> result_aliases, ri5))))"

text \<open>
  The first half of \<^verbatim>\<open>kmod_driver\<close>, from "Read in the kernel modules" to the second
  \<^verbatim>\<open>kmod_module_get_info\<close>: the two modules with their info lists, or the bool the driver
  returns early.
\<close>

definition kmod_read ::
  "kmod_env \<Rightarrow> rpmfile \<Rightarrow> rpmfile_entry \<Rightarrow> bool + (string \<times> kmod_info) \<times> (string \<times> kmod_info)" where
  "kmod_read env peer file =
     (if \<not> kmod_new env then Inl False
      else
        (case kmod_module_new_from_path env (fullpath peer) of
           None \<Rightarrow> Inl True
         | Some (before_kmod_name, before_get_info) \<Rightarrow>
             (case kmod_module_new_from_path env (fullpath file) of
                None \<Rightarrow> Inl True
              | Some (after_kmod_name, after_get_info) \<Rightarrow>
                  (case before_get_info of
                     None \<Rightarrow> Inl False
                   | Some beforeinfo \<Rightarrow>
                       (case after_get_info of
                          None \<Rightarrow> Inl False
                        | Some afterinfo \<Rightarrow>
                            Inr ((before_kmod_name, beforeinfo), (after_kmod_name, afterinfo)))))))"

definition kmod_driver ::
  "kmod_env \<Rightarrow> rpminspect \<times> kmod_statics \<Rightarrow> rpmfile_entry
     \<Rightarrow> error + bool \<times> rpminspect \<times> kmod_statics" where
  "kmod_driver env st file =
     (case st of (ri, g) \<Rightarrow>
      if headerIsSource (rpm_header file) then Inr (True, ri, g)
      else if \<not> st_isreg file then Inr (True, ri, g)
      else if strprefix (localpath file) (debug_path env) then Inr (True, ri, g)
      else if \<not> strstr (localpath file) (kernel_modules_dir env)
              \<or> \<not> strstr (localpath file) (kernel_module_filename_extension env)
      then Inr (True, ri, g)
      else
        (case peer_file file of
           None \<Rightarrow> Inl NullDeref
         | Some peer \<Rightarrow>
             (case (headerGetString (rpm_header peer) RPMTAG_NAME,
                    headerGetString (rpm_header file) RPMTAG_NAME,
                    headerGetString (rpm_header peer) RPMTAG_VERSION,
                    headerGetString (rpm_header file) RPMTAG_VERSION) of
                (Some beforename, Some aftername, Some beforever, Some afterver) \<Rightarrow>
                  let g1 = (if beforename = aftername \<and> afterver = beforever
                            then g\<lparr>sev := RESULT_VERIFY, waiver := WAIVABLE_BY_ANYONE\<rparr>
                            else g)
                  in (case kmod_read env peer file of
                        Inl early \<Rightarrow> Inr (early, ri, g1)
                      | Inr (before_kmod, after_kmod) \<Rightarrow>
                          (case kmod_compare env ri g1 file before_kmod after_kmod of
                             (result, ri') \<Rightarrow> Inr (result, ri', g1)))
              | _ \<Rightarrow> Inl AssertFail)))"

text \<open>
  Modelled from the spec: \<^verbatim>\<open>foreach_peer_file\<close> is not among the source files. The spec has
  the driver walk the peers and call the differ on each file of the after build, one
  file's failure never stopping the rest; the result is false when some call returned
  false.
\<close>

fun foreach_file ::
  "('s \<Rightarrow> rpmfile_entry \<Rightarrow> error + bool \<times> 's) \<Rightarrow> rpmfile_entry list \<Rightarrow> bool \<times> 's
     \<Rightarrow> error + bool \<times> 's" where
  "foreach_file check_fn [] st = Inr st"
| "foreach_file check_fn (file # rest) (result, s) =
     (case check_fn s file of
        Inl e \<Rightarrow> Inl e
      | Inr (ok, s') \<Rightarrow> foreach_file check_fn rest ((if ok then result else False), s'))"

fun foreach_peer_file ::
  "('s \<Rightarrow> rpmfile_entry \<Rightarrow> error + bool \<times> 's) \<Rightarrow> rpmpeer_entry list \<Rightarrow> bool \<times> 's
     \<Rightarrow> error + bool \<times> 's" where
  "foreach_peer_file check_fn [] st = Inr st"
| "foreach_peer_file check_fn (peer # rest) st =
     (case after_files peer of
        None \<Rightarrow> foreach_peer_file check_fn rest st
      | Some files \<Rightarrow>
          (case foreach_file check_fn files st of
             Inl e \<Rightarrow> Inl e
           | Inr st' \<Rightarrow> foreach_peer_file check_fn rest st'))"

definition inspect_kmod ::
  "kmod_env \<Rightarrow> rpminspect \<Rightarrow> kmod_statics \<Rightarrow> error + bool \<times> rpminspect \<times> kmod_statics" where
  "inspect_kmod env ri g =
     (case foreach_peer_file (kmod_driver env) (peers ri) (True, ri, g) of
        Inl e \<Rightarrow> Inl e
      | Inr (result, ri', g') \<Rightarrow>
          Inr (result,
               (if result then add_result ri' RESULT_OK NOT_WAIVABLE HEADER_KMOD None None None
                else ri'),
               g'))"

section \<open>The upstream inspection (inspect_upstream.c)\<close>















section \<open>The spec's words, for comparison with the code\<close>

text \<open>
  The spec's balance check: \<^verbatim>\<open>(\<close> increments a depth counter, \<^verbatim>\<open>)\<close> decrements it. \<open>depth\<close>
  is the counter after a whole string; a tag is unbalanced when the depth after some
  prefix is negative or the depth after the whole tag is not zero.
\<close>

fun depth :: "string \<Rightarrow> int" where
  "depth [] = 0"
| "depth (c # cs) = (if c = CHR ''('' then 1 else if c = CHR '')'' then - 1 else 0) + depth cs"

definition unbalanced :: "string \<Rightarrow> bool" where
  "unbalanced tag =
     ((\<exists>n \<in> set [0..<Suc (length tag)]. depth (take n tag) < 0) \<or> depth tag \<noteq> 0)"

section \<open>The spec's words on license phrases\<close>

text \<open>
  A database is well formed when no entry makes \<^verbatim>\<open>check_license_abbrev\<close> fault: every
  \<^verbatim>\<open>approved\<close> value is a string and both abbreviation properties are present (they may be
  empty strings).
\<close>

definition entry_ok :: "string \<times> license_props \<Rightarrow> bool" where
  "entry_ok entry =
     (case collect_props (snd entry) reset_fields of
        Inl _ \<Rightarrow> False
      | Inr f \<Rightarrow> fedora_abbrev f \<noteq> None \<and> spdx_abbrev f \<noteq> None)"

definition db_ok :: "licensedb \<Rightarrow> bool" where
  "db_ok db = list_all entry_ok db"

text \<open>
  The whole-tag shortcut: an approved entry with at least one abbreviation whose name or
  either abbreviation is the tag itself.
\<close>

definition entry_approves_tag :: "string \<Rightarrow> string \<times> license_props \<Rightarrow> bool" where
  "entry_approves_tag tag entry =
     (case collect_props (snd entry) reset_fields of
        Inl _ \<Rightarrow> False
      | Inr f \<Rightarrow>
          approved f \<and> \<not> (fedora_abbrev f = Some [] \<and> spdx_abbrev f = Some [])
          \<and> (fedora_abbrev f = Some tag \<or> spdx_abbrev f = Some tag \<or> fst entry = tag))"

definition whole_approved :: "licensedb \<Rightarrow> string \<Rightarrow> bool" where
  "whole_approved db tag = list_ex (entry_approves_tag tag) db"

text \<open>
  A phrase is approved when it equals the first or the second abbreviation of an approved
  entry.
\<close>

definition entry_approves_phrase :: "string \<Rightarrow> string \<times> license_props \<Rightarrow> bool" where
  "entry_approves_phrase p entry =
     (case collect_props (snd entry) reset_fields of
        Inl _ \<Rightarrow> False
      | Inr f \<Rightarrow> approved f \<and> (fedora_abbrev f = Some p \<or> spdx_abbrev f = Some p))"

definition phrase_approved :: "licensedb \<Rightarrow> string \<Rightarrow> bool" where
  "phrase_approved db p = list_ex (entry_approves_phrase p) db"


text \<open>
  The spec's tokenizer: consecutive non-boolean tokens are joined by single spaces into
  one phrase, and the boolean keywords split phrases and are discarded. \<open>phrases\<close> are the
  phrases of a token list, given the phrase under construction; \<open>phrases_ok\<close> says that
  every keyword and the end of the list find a phrase under construction (the tag does
  not start with a keyword, has no two keywords in a row, does not end with one and is
  not empty); \<open>assemble\<close> is the phrase a keyword-free token list builds.
\<close>

fun phrases :: "string list \<Rightarrow> string option \<Rightarrow> string list" where
  "phrases [] cur = (case cur of None \<Rightarrow> [] | Some l \<Rightarrow> [l])"
| "phrases (t # ts) cur =
     (if t = [] then phrases ts cur
      else if is_boolean t then (case cur of None \<Rightarrow> phrases ts None | Some l \<Rightarrow> l # phrases ts None)
      else phrases ts (Some (case cur of None \<Rightarrow> t | Some l \<Rightarrow> l @ '' '' @ t)))"

fun phrases_ok :: "string list \<Rightarrow> bool \<Rightarrow> bool" where
  "phrases_ok [] collecting = collecting"
| "phrases_ok (t # ts) collecting =
     (if t = [] then phrases_ok ts collecting
      else if is_boolean t then collecting \<and> phrases_ok ts False
      else phrases_ok ts True)"

fun assemble :: "string list \<Rightarrow> string option \<Rightarrow> string option" where
  "assemble [] cur = cur"
| "assemble (t # ts) cur =
     (if t = [] then assemble ts cur
      else assemble ts (Some (case cur of None \<Rightarrow> t | Some l \<Rightarrow> l @ '' '' @ t)))"

definition phrase_of :: "string \<Rightarrow> string option" where
  "phrase_of s = assemble (strsep_all s) None"

definition has_boolean :: "string \<Rightarrow> bool" where
  "has_boolean s = list_ex is_boolean (strsep_all s)"


text \<open>
  For the proofs: the loop followed by the code after it, and the number of phrases seen
  so far that did not match (the phrase under construction is already counted in
  \<^verbatim>\<open>seen\<close>).
\<close>

definition finish :: "licensedb \<Rightarrow> string \<Rightarrow> string list \<Rightarrow> tag_state \<Rightarrow> error + bool" where
  "finish db tag ts st =
     (case token_loop db tag ts st of
        Inl e \<Rightarrow> Inl e
      | Inr (Returned b) \<Rightarrow> Inr b
      | Inr (Running st') \<Rightarrow>
          (case check_license_abbrev db tag (lic st') (whole_match st') of
             Inl e \<Rightarrow> Inl e
           | Inr (r, wm) \<Rightarrow> if wm then Inr True else Inr (seen st' = valid st' + r)))"

definition owed :: "tag_state \<Rightarrow> int" where
  "owed st = seen st - valid st - (if lic st = None then 0 else 1)"


section \<open>Concrete inputs\<close>

definition env0 :: license_env where
  "env0 = \<lparr> has_bad_word = (\<lambda>_ _. False), read_licensedb = (\<lambda>_. None),
            access_ok = (\<lambda>_. True), licenses_dir = ''licenses'' \<rparr>"

text \<open>A binary package header with a name and a version and no other string tag.\<close>

definition hdr_of :: "string \<Rightarrow> string \<Rightarrow> header" where
  "hdr_of n v =
     \<lparr> name_tag = Some n, version_tag = Some v, license_tag = None, vendor_tag = None,
       buildhost_tag = None, summary_tag = None, description_tag = None,
       source_tag = None, is_source_hdr = False, nevra = n @ ''-'' @ v @ ''-1.x86_64'' \<rparr>"

definition hdr_nolicense :: header where
  "hdr_nolicense = hdr_of ''foo'' ''1.0''"

definition ri0 :: rpminspect where
  "ri0 =
     \<lparr> found = [], worst_result = RESULT_OK, peers = [], badwords = None, vendor = None,
       buildhost_subdomain = None, vendor_data_dir = ''/usr/share/rpminspect'',
       licensedb_name = Some ''generic.json'' \<rparr>"

definition peer_nolicense :: rpmpeer_entry where
  "peer_nolicense =
     \<lparr> after_rpm = Some ''foo-1.0-1.x86_64.rpm'', before_hdr = None,
       after_hdr = Some hdr_nolicense, before_files = None, after_files = None \<rparr>"

text \<open>
  A kernel module environment in which the parameter comparer is the set difference of
  the spec, and two module files: \<open>a.ko\<close> of a package whose name and version are
  unchanged, and \<open>foo.ko\<close> of a package that went from 1.0 to 2.0, lost the parameter
  \<open>debug\<close> and gained \<open>trace\<close>.
\<close>

definition parm_values :: "kmod_info \<Rightarrow> string list" where
  "parm_values info = map snd (filter (\<lambda>kv. fst kv = ''parm'') info)"

definition kenv0 :: kmod_env where
  "kenv0 =
     \<lparr> kmod_new = True,
       kmod_module_new_from_path =
         (\<lambda>path.
            if path = ''/before/lib/modules/5.0/a.ko'' then Some (''a'', Some [(''parm'', ''level'')])
            else if path = ''/after/lib/modules/5.0/a.ko''
              then Some (''a'', Some [(''parm'', ''level'')])
            else if path = ''/before/lib/modules/5.0/foo.ko''
              then Some (''foo'', Some [(''parm'', ''debug''), (''parm'', ''level'')])
            else if path = ''/after/lib/modules/5.0/foo.ko''
              then Some (''foo'', Some [(''parm'', ''level''), (''parm'', ''trace'')])
            else None),
       compare_module_parameters =
         (\<lambda>b a. (True,
                  Some (filter (\<lambda>p. p \<notin> set (parm_values a)) (parm_values b)),
                  Some (filter (\<lambda>p. p \<notin> set (parm_values b)) (parm_values a)))),
       compare_module_dependencies = (\<lambda>b a. (True, None, None)),
       compare_module_aliases = (\<lambda>b a. (True, [])),
       debug_path = ''/usr/lib/debug/'',
       kernel_modules_dir = ''/lib/modules/'',
       kernel_module_filename_extension = ''.ko'' \<rparr>"

definition kmod_a :: rpmfile_entry where
  "kmod_a =
     \<lparr> localpath = ''/lib/modules/5.0/a.ko'', fullpath = ''/after/lib/modules/5.0/a.ko'',
       rpm_header = hdr_of ''kernel-core'' ''5.0'', st_isreg = True,
       peer_file = Some \<lparr> localpath = ''/lib/modules/5.0/a.ko'',
                          fullpath = ''/before/lib/modules/5.0/a.ko'',
                          rpm_header = hdr_of ''kernel-core'' ''5.0'', st_isreg = True \<rparr> \<rparr>"

definition kmod_foo :: rpmfile_entry where
  "kmod_foo =
     \<lparr> localpath = ''/lib/modules/5.0/foo.ko'', fullpath = ''/after/lib/modules/5.0/foo.ko'',
       rpm_header = hdr_of ''kmod-foo'' ''2.0'', st_isreg = True,
       peer_file = Some \<lparr> localpath = ''/lib/modules/5.0/foo.ko'',
                          fullpath = ''/before/lib/modules/5.0/foo.ko'',
                          rpm_header = hdr_of ''kmod-foo'' ''1.0'', st_isreg = True \<rparr> \<rparr>"

definition lost_debug :: "severity \<Rightarrow> waiverauth \<Rightarrow> finding" where
  "lost_debug s w =
     \<lparr> f_severity = s, f_waiver = w, f_header = HEADER_KMOD,
       f_msg = Some (''Kernel module /lib/modules/5.0/foo.ko removes parameter ''
                     @ [CHR 0x27] @ ''debug'' @ [CHR 0x27]),
       f_details = None, f_remedy = Some REMEDY_KMOD_PARM \<rparr>"

definition gained_trace :: finding where
  "gained_trace =
     \<lparr> f_severity = RESULT_INFO, f_waiver = NOT_WAIVABLE, f_header = HEADER_KMOD,
       f_msg = Some (''Kernel module /lib/modules/5.0/foo.ko adds parameter ''
                     @ [CHR 0x27] @ ''trace'' @ [CHR 0x27]),
       f_details = None, f_remedy = None \<rparr>"












text \<open>
  Notions for stating what an inspection adds to the run: the findings of \<open>ri'\<close> past
  those of \<open>ri\<close>; that \<open>ri'\<close> is \<open>ri\<close> with findings appended and the settings untouched;
  and the mark of a before/after drift finding of the metadata inspection, the one kind it
  records without a remedy.
\<close>

definition new_findings :: "rpminspect \<Rightarrow> rpminspect \<Rightarrow> finding list" where
  "new_findings ri ri' = drop (length (found ri)) (found ri')"

definition extends :: "rpminspect \<Rightarrow> rpminspect \<Rightarrow> bool" where
  "extends ri ri' =
     (found ri' = found ri @ new_findings ri ri' \<and> vendor ri' = vendor ri
      \<and> buildhost_subdomain ri' = buildhost_subdomain ri \<and> badwords ri' = badwords ri)"

definition is_drift :: "finding \<Rightarrow> bool" where
  "is_drift f = (f_remedy f = None \<and> f_severity f = RESULT_VERIFY \<and> f_waiver f = WAIVABLE_BY_ANYONE)"


text \<open>
  A package that gained a vendor between the builds, in a run configured for that vendor.
\<close>

definition meta_before :: header where
  "meta_before =
     (hdr_of ''foo'' ''1.0'')\<lparr> summary_tag := Some ''A tool'', description_tag := Some ''Does it.'' \<rparr>"

definition meta_ri :: rpminspect where
  "meta_ri = ri0\<lparr> vendor := Some ''Acme'' \<rparr>"

text \<open>
  A license database: two ordinary licenses, an approved license whose abbreviation
  contains the word "and", an approved license without abbreviations, and a license
  that is not approved.
\<close>

definition licdb0 :: licensedb where
  "licdb0 =
     [(''MIT License'',
       [(''approved'', Some ''yes''), (''fedora_abbrev'', Some ''MIT''),
        (''spdx_abbrev'', Some ''MIT'')]),
      (''GNU General Public License v2.0 or later'',
       [(''approved'', Some ''yes''), (''fedora_abbrev'', Some ''GPLv2+''),
        (''spdx_abbrev'', Some ''GPL-2.0+'')]),
      (''Perl License'',
       [(''approved'', Some ''yes''), (''fedora_abbrev'', Some ''GPL+ and Artistic''),
        (''spdx_abbrev'', Some [])]),
      (''Foo Public License'',
       [(''approved'', Some ''yes''), (''fedora_abbrev'', Some []),
        (''spdx_abbrev'', Some [])]),
      (''Bad License'',
       [(''approved'', Some ''no''), (''fedora_abbrev'', Some ''Bad''),
        (''spdx_abbrev'', Some [])])]"








text \<open>The package of \<open>meta_before\<close> with its Summary tag gone in the after build.\<close>

definition meta_nosummary :: header where
  "meta_nosummary = meta_before\<lparr> summary_tag := None \<rparr>"

section \<open>Properties of the license validator\<close>

subsection \<open>The parenthesis check\<close>

lemma paren_scan_None:
  "paren_scan s b = None \<longleftrightarrow> (\<exists>n<length s. b + depth (take n s) < 0)"
proof (induction s arbitrary: b)
  case Nil
  then show ?case by simp
next
  case (Cons c cs)
  show ?case
    by (simp add: Cons.IH Ex_less_Suc2 algebra_simps)
qed

lemma paren_scan_Some:
  "paren_scan s b = Some v \<Longrightarrow> v = b + depth s"
proof (induction s arbitrary: b)
  case Nil
  then show ?case by simp
next
  case (Cons c cs)
  from Cons.prems show ?case
    by (auto split: if_splits dest!: Cons.IH)
qed

text \<open>
  C2. A tag with unbalanced parentheses (the depth is negative after some prefix, or not
  zero at the end) is invalid: \<^verbatim>\<open>is_valid_license\<close> returns false whatever the database
  on disk or in memory is, and leaves the static \<^verbatim>\<open>licdb\<close> as it found it, so the
  database is neither loaded nor searched.
\<close>

theorem unbalanced_is_invalid:
  assumes "unbalanced tag"
  shows "is_valid_license env licdb licensedb tag = (Inr False, licdb)"
proof (cases "paren_scan tag 0")
  case None
  then show ?thesis by (simp add: is_valid_license_def)
next
  case (Some v)
  then have v: "v = depth tag" using paren_scan_Some by fastforce
  from Some have "\<not> (\<exists>n<length tag. 0 + depth (take n tag) < 0)"
    using paren_scan_None[of tag 0] by simp
  then have "\<forall>n<length tag. \<not> depth (take n tag) < 0" by simp
  with assms have "depth tag \<noteq> 0"
    unfolding unbalanced_def
    by (metis atLeastLessThan_iff less_Suc_eq set_upt take_all_iff order_refl less_irrefl)
  with Some v show ?thesis by (simp add: is_valid_license_def)
qed

theorem unbalanced_is_invalid_witness:
  "unbalanced ''GPLv2+ and MIT) or (LGPLv2+'' \<and>
   is_valid_license env0 None ''licenses.json'' ''GPLv2+ and MIT) or (LGPLv2+''
     = (Inr False, None)"
  using unbalanced_is_invalid [of "''GPLv2+ and MIT) or (LGPLv2+''" env0 None "''licenses.json''"]
  by (simp add: unbalanced_def)

subsection \<open>The tokens of the loop\<close>

text \<open>
  \<open>strsep_all\<close> is what the loop sees: its first element is the token of one \<^verbatim>\<open>strsep\<close>
  call, and the rest are the tokens of the string that call leaves in \<^verbatim>\<open>tagtokens\<close>; the
  list ends when the call leaves NULL.
\<close>

lemma strsep_all_strsep:
  "strsep_all s =
     (case strsep s of
        (token, None) \<Rightarrow> [token]
      | (token, Some rest) \<Rightarrow> token # strsep_all rest)"
proof (induction s)
  case Nil
  then show ?case by simp
next
  case (Cons c cs)
  then show ?case
    by (auto split: prod.splits option.splits list.splits)
qed

subsection \<open>The empty tag\<close>

lemma token_loop_spaces:
  "token_loop db tag (strsep_all (replicate n CHR '' '')) st = Inr (Running st)"
  by (induction n) auto

lemma paren_scan_spaces:
  "paren_scan (replicate n CHR '' '') b = (if b < 0 \<and> 0 < n then None else Some b)"
  by (induction n) auto

text \<open>
  C4. On the empty tag, and on a tag of spaces only, the loop collects no phrase, so the
  call of \<^verbatim>\<open>check_license_abbrev\<close> after the loop gets \<^verbatim>\<open>lic == NULL\<close> and its
  \<^verbatim>\<open>assert(lic != NULL)\<close> aborts the process: the comparison \<^verbatim>\<open>seen == valid\<close> is never
  reached, whatever the database holds.
\<close>

theorem empty_tag_aborts:
  "is_valid_license env (Some db) licensedb (replicate n CHR '' '') = (Inl AssertFail, Some db)"
  by (simp add: is_valid_license_def validate_tag_def token_loop_spaces paren_scan_spaces
      initial_tag_state_def check_license_abbrev_def)

subsection \<open>One database scan\<close>

lemma scan_step:
  assumes "collect_props val reset_fields = Inr f" "fedora_abbrev f = Some fa"
    "spdx_abbrev f = Some sa"
  shows "scan_licdb ((name, val) # rest) tag l wm =
    (if fa = [] \<and> sa = [] then scan_licdb rest tag l wm
     else if approved f \<and> (tag = fa \<or> tag = sa \<or> tag = name) then Inr (0, True)
     else if approved f \<and> (l = fa \<or> l = sa) then Inr (1, wm)
     else scan_licdb rest tag l wm)"
  using assms
  by (auto simp: no_abbrevs_def whole_tag_match_def abbrev_match_def)

lemma scan_not_whole:
  assumes "db_ok db" "\<not> whole_approved db tag" "l \<noteq> []"
  shows "scan_licdb db tag l wm = Inr (if phrase_approved db l then 1 else 0, wm)"
  using assms
proof (induction db)
  case Nil
  then show ?case by (simp add: phrase_approved_def)
next
  case (Cons entry rest)
  obtain name val where entry: "entry = (name, val)" by (cases entry)
  from Cons.prems(1) obtain f fa sa where f: "collect_props val reset_fields = Inr f"
      "fedora_abbrev f = Some fa" "spdx_abbrev f = Some sa"
    by (auto simp: db_ok_def entry_ok_def entry split: sum.splits)
  have rest: "db_ok rest" "\<not> whole_approved rest tag"
    using Cons.prems by (auto simp: db_ok_def whole_approved_def)
  have ih: "scan_licdb rest tag l wm = Inr (if phrase_approved rest l then 1 else 0, wm)"
    using Cons.IH rest Cons.prems(3) by simp
  have nw: "\<not> entry_approves_tag tag (name, val)"
    using Cons.prems(2) by (simp add: whole_approved_def entry)
  have pa: "phrase_approved ((name, val) # rest) l
      = (entry_approves_phrase l (name, val) \<or> phrase_approved rest l)"
    by (simp add: phrase_approved_def)
  show ?case
    unfolding entry scan_step [OF f] ih pa
    using nw Cons.prems(3)
    by (auto simp: f entry_approves_tag_def entry_approves_phrase_def)
qed

lemma scan_whole:
  assumes "db_ok db" "whole_approved db tag"
  shows "scan_licdb db tag l wm = Inr (0, True) \<or> scan_licdb db tag l wm = Inr (1, wm)"
  using assms
proof (induction db)
  case Nil
  then show ?case by (simp add: whole_approved_def)
next
  case (Cons entry rest)
  obtain name val where entry: "entry = (name, val)" by (cases entry)
  from Cons.prems(1) obtain f fa sa where f: "collect_props val reset_fields = Inr f"
      "fedora_abbrev f = Some fa" "spdx_abbrev f = Some sa"
    by (auto simp: db_ok_def entry_ok_def entry split: sum.splits)
  have rest: "db_ok rest" using Cons.prems by (auto simp: db_ok_def)
  show ?case
  proof (cases "entry_approves_tag tag (name, val)")
    case True
    then show ?thesis
      unfolding entry scan_step [OF f]
      by (auto simp: f entry_approves_tag_def)
  next
    case False
    with Cons.prems(2) have "whole_approved rest tag" by (simp add: whole_approved_def entry)
    with Cons.IH rest
    have ih: "scan_licdb rest tag l wm = Inr (0, True) \<or> scan_licdb rest tag l wm = Inr (1, wm)"
      by simp
    from False ih show ?thesis
      unfolding entry scan_step [OF f]
      by (auto simp: f entry_approves_tag_def)
  qed
qed

subsection \<open>The token loop\<close>

lemma validate_tag_finish: "validate_tag db tag = finish db tag (strsep_all tag) initial_tag_state"
  by (simp add: validate_tag_def finish_def)

lemma finish_Nil:
  "finish db tag [] st =
     (case check_license_abbrev db tag (lic st) (whole_match st) of
        Inl e \<Rightarrow> Inl e
      | Inr (r, wm) \<Rightarrow> if wm then Inr True else Inr (seen st = valid st + r))"
  by (simp add: finish_def)

lemma finish_empty: "finish db tag ([] # ts) st = finish db tag ts st"
  by (simp add: finish_def)

lemma finish_word:
  assumes "t \<noteq> []" "\<not> is_boolean t" "collect st"
  shows "finish db tag (t # ts) st =
     finish db tag ts
       (st\<lparr>lic := Some (case lic st of None \<Rightarrow> t | Some l \<Rightarrow> l @ '' '' @ t),
           seen := seen st + (if lic st = None then 1 else 0)\<rparr>)"
  using assms by (cases "lic st") (simp_all add: finish_def)

lemma finish_bool:
  assumes "t \<noteq> []" "is_boolean t"
  shows "finish db tag (t # ts) st =
     (case check_license_abbrev db tag (lic st) (whole_match st) of
        Inl e \<Rightarrow> Inl e
      | Inr (r, wm) \<Rightarrow>
          if wm then Inr True
          else finish db tag ts
                 (st\<lparr>valid := valid st + r, whole_match := wm, lic := None, collect := True\<rparr>))"
  using assms by (auto simp: finish_def split: sum.splits prod.splits)

lemma finish_not_whole:
  assumes db: "db_ok db" and nw: "\<not> whole_approved db tag"
  shows "collect st \<Longrightarrow> \<not> whole_match st \<Longrightarrow> phrases_ok ts (lic st \<noteq> None) \<Longrightarrow>
     lic st \<noteq> Some [] \<Longrightarrow> 0 \<le> owed st \<Longrightarrow>
     finish db tag ts st =
       Inr (owed st = 0 \<and> list_all (phrase_approved db) (phrases ts (lic st)))"
proof (induction ts arbitrary: st)
  case Nil
  then obtain l where l: "lic st = Some l" "l \<noteq> []" by auto
  show ?case
    using Nil.prems scan_not_whole [OF db nw l(2), of "whole_match st"]
    by (auto simp: finish_Nil check_license_abbrev_def l owed_def)
next
  case (Cons t ts)
  show ?case
  proof (cases "t = []")
    case True
    with Cons show ?thesis by (simp add: finish_empty)
  next
    case ne: False
    show ?thesis
    proof (cases "is_boolean t")
      case True
      with ne Cons.prems obtain l where l: "lic st = Some l" "l \<noteq> []" by auto
      let ?r = "if phrase_approved db l then 1 else 0 :: int"
      let ?st = "st\<lparr>valid := valid st + ?r, whole_match := False, lic := None, collect := True\<rparr>"
      have step: "finish db tag (t # ts) st = finish db tag ts ?st"
        using Cons.prems(2) scan_not_whole [OF db nw l(2), of "whole_match st"]
        by (simp add: finish_bool [OF ne True] check_license_abbrev_def l)
      have ih: "finish db tag ts ?st =
          Inr (owed ?st = 0 \<and> list_all (phrase_approved db) (phrases ts (lic ?st)))"
        using Cons.prems True ne by (intro Cons.IH) (auto simp: owed_def l)
      show ?thesis
        using Cons.prems(5) by (auto simp: step ih True ne l owed_def)
    next
      case False
      let ?st = "st\<lparr>lic := Some (case lic st of None \<Rightarrow> t | Some l \<Rightarrow> l @ '' '' @ t),
           seen := seen st + (if lic st = None then 1 else 0)\<rparr>"
      have step: "finish db tag (t # ts) st = finish db tag ts ?st"
        using finish_word [OF ne False Cons.prems(1)] .
      have ih: "finish db tag ts ?st =
          Inr (owed ?st = 0 \<and> list_all (phrase_approved db) (phrases ts (lic ?st)))"
        using Cons.prems False ne by (intro Cons.IH) (auto simp: owed_def split: option.splits)
      show ?thesis
        by (auto simp: step ih False ne owed_def split: option.splits)
    qed
  qed
qed

lemma finish_whole:
  assumes db: "db_ok db" and w: "whole_approved db tag"
  shows "collect st \<Longrightarrow> \<not> whole_match st \<Longrightarrow> phrases_ok ts (lic st \<noteq> None) \<Longrightarrow>
     owed st = 0 \<Longrightarrow> finish db tag ts st = Inr True"
proof (induction ts arbitrary: st)
  case Nil
  then obtain l where l: "lic st = Some l" by auto
  show ?case
    using Nil.prems scan_whole [OF db w, of l "whole_match st"]
    by (auto simp: finish_Nil check_license_abbrev_def l owed_def)
next
  case (Cons t ts)
  show ?case
  proof (cases "t = []")
    case True
    with Cons show ?thesis by (simp add: finish_empty)
  next
    case ne: False
    show ?thesis
    proof (cases "is_boolean t")
      case True
      with ne Cons.prems obtain l where l: "lic st = Some l" by auto
      let ?st = "st\<lparr>valid := valid st + 1, whole_match := False, lic := None, collect := True\<rparr>"
      have ih: "finish db tag ts ?st = Inr True"
        using Cons.prems True ne by (intro Cons.IH) (auto simp: owed_def l)
      show ?thesis
        using Cons.prems(2) scan_whole [OF db w, of l "whole_match st"] ih
        by (auto simp: finish_bool [OF ne True] check_license_abbrev_def l)
    next
      case False
      let ?st = "st\<lparr>lic := Some (case lic st of None \<Rightarrow> t | Some l \<Rightarrow> l @ '' '' @ t),
           seen := seen st + (if lic st = None then 1 else 0)\<rparr>"
      have step: "finish db tag (t # ts) st = finish db tag ts ?st"
        using finish_word [OF ne False Cons.prems(1)] .
      have ih: "finish db tag ts ?st = Inr True"
        using Cons.prems False ne by (intro Cons.IH) (auto simp: owed_def split: option.splits)
      show ?thesis
        by (simp add: step ih)
    qed
  qed
qed

subsection \<open>Tokens of a conjunction\<close>

lemma strsep_all_nonempty: "strsep_all s \<noteq> []"
  by (induction s) (auto split: list.splits)

lemma strsep_all_space: "strsep_all (a @ CHR '' '' # b) = strsep_all a @ strsep_all b"
proof (induction a)
  case Nil
  then show ?case by simp
next
  case (Cons c cs)
  obtain t ts where "strsep_all cs = t # ts"
    using strsep_all_nonempty [of cs] by (cases "strsep_all cs") auto
  with Cons show ?case by simp
qed

lemma is_boolean_and: "is_boolean ''and''"
  by (simp add: is_boolean_def strcasecmp_eq_def)

lemma tokens_and: "strsep_all (a @ '' and '' @ b) = strsep_all a @ ''and'' # strsep_all b"
  by (simp add: strsep_all_space)

lemma phrases_append:
  "\<not> list_ex is_boolean ts \<Longrightarrow> phrases (ts @ rest) cur = phrases rest (assemble ts cur)"
  by (induction ts arbitrary: cur) auto

lemma phrases_ok_append:
  "\<not> list_ex is_boolean ts \<Longrightarrow>
     phrases_ok (ts @ rest) (cur \<noteq> None) = phrases_ok rest (assemble ts cur \<noteq> None)"
proof (induction ts arbitrary: cur)
  case Nil
  then show ?case by simp
next
  case (Cons t ts)
  then show ?case
    using Cons.IH [of "Some (case cur of None \<Rightarrow> t | Some l \<Rightarrow> l @ '' '' @ t)"] by auto
qed

lemma paren_scan_balanced: "\<not> unbalanced tag \<Longrightarrow> paren_scan tag 0 = Some 0"
proof -
  assume b: "\<not> unbalanced tag"
  then have "\<forall>n<length tag. \<not> depth (take n tag) < 0" and d: "depth tag = 0"
    by (auto simp: unbalanced_def)
  then have "paren_scan tag 0 \<noteq> None"
    using paren_scan_None [of tag 0] by simp
  then obtain v where v: "paren_scan tag 0 = Some v" by auto
  with paren_scan_Some [OF v] d show ?thesis by simp
qed


subsection \<open>Two phrases joined by "and"\<close>

text \<open>
  C1, as the spec states it, fails: the expression \<^verbatim>\<open>GPL+ and Artistic\<close> is valid, by the
  whole-tag shortcut on the abbreviation of the Perl license, although neither \<^verbatim>\<open>GPL+\<close>
  nor \<^verbatim>\<open>Artistic\<close> is an abbreviation of an approved entry.
\<close>

theorem conjunction_valid_by_whole_tag:
  "is_valid_license env0 (Some licdb0) ''licenses.json'' ''GPL+ and Artistic''
     = (Inr True, Some licdb0)
   \<and> \<not> phrase_approved licdb0 ''GPL+'' \<and> \<not> phrase_approved licdb0 ''Artistic''"
  by code_simp

text \<open>
  C1, amended. Let the database be well formed and loaded (or loadable), let \<open>a\<close> and \<open>b\<close>
  contain no boolean keyword and each assemble to a phrase, \<open>pa\<close> and \<open>pb\<close>, and let the
  parentheses of \<^verbatim>\<open>a and b\<close> balance. Then \<^verbatim>\<open>is_valid_license\<close> returns, and it returns true
  exactly when the whole expression is approved by the whole-tag shortcut or both
  phrases are approved.
\<close>

theorem conjunction_valid_iff:
  assumes "db_ok db" and "\<not> unbalanced (a @ '' and '' @ b)"
    and "\<not> has_boolean a" and "\<not> has_boolean b"
    and "phrase_of a = Some pa" and "phrase_of b = Some pb"
    and "licdb = Some db \<or> (licdb = None \<and> read_licensedb env licensedb = Some db)"
  shows "is_valid_license env licdb licensedb (a @ '' and '' @ b) =
     (Inr (whole_approved db (a @ '' and '' @ b)
           \<or> (phrase_approved db pa \<and> phrase_approved db pb)),
      Some db)"
proof -
  define tag where "tag = a @ '' and '' @ b"
  define ts where "ts = strsep_all tag"
  let ?st = "initial_tag_state"
  have st: "collect ?st" "\<not> whole_match ?st" "lic ?st = None" "owed ?st = 0"
    by (simp_all add: initial_tag_state_def owed_def)
  have nb: "\<not> list_ex is_boolean (strsep_all a)" "\<not> list_ex is_boolean (strsep_all b)"
    using assms(3,4) by (simp_all add: has_boolean_def)
  have as: "assemble (strsep_all a) None = Some pa" "assemble (strsep_all b) None = Some pb"
    using assms(5,6) by (simp_all add: phrase_of_def)
  have tk: "ts = strsep_all a @ ''and'' # strsep_all b"
    unfolding ts_def tag_def by (rule tokens_and)
  have ph: "phrases ts None = [pa, pb]"
    unfolding tk
    using phrases_append [OF nb(1), of "''and'' # strsep_all b" None]
      phrases_append [OF nb(2), of "[]" None] is_boolean_and
    by (simp add: as)
  have ok: "phrases_ok ts (lic ?st \<noteq> None)"
    unfolding tk
    using phrases_ok_append [OF nb(1), of "''and'' # strsep_all b" None]
      phrases_ok_append [OF nb(2), of "[]" None] is_boolean_and
    by (simp add: as st)
  have v: "validate_tag db tag =
      Inr (whole_approved db tag \<or> (phrase_approved db pa \<and> phrase_approved db pb))"
  proof (cases "whole_approved db tag")
    case True
    with finish_whole [OF assms(1) True st(1,2) ok st(4)] show ?thesis
      by (simp add: validate_tag_finish ts_def)
  next
    case False
    have "finish db tag ts ?st =
        Inr (owed ?st = 0 \<and> list_all (phrase_approved db) (phrases ts (lic ?st)))"
      using st by (intro finish_not_whole [OF assms(1) False st(1,2) ok]) simp_all
    with False show ?thesis
      by (simp add: validate_tag_finish st ph ts_def [symmetric])
  qed
  have "paren_scan tag 0 = Some 0"
    using paren_scan_balanced assms(2) by (simp add: tag_def)
  then have "is_valid_license env licdb licensedb tag =
     (Inr (whole_approved db tag \<or> (phrase_approved db pa \<and> phrase_approved db pb)), Some db)"
    using assms(7) by (auto simp: is_valid_license_def v)
  then show ?thesis by (simp only: tag_def)
qed

theorem conjunction_valid_iff_witness:
  "db_ok licdb0 \<and> \<not> unbalanced (''(GPLv2+)'' @ '' and '' @ ''Bad'')
   \<and> \<not> has_boolean ''(GPLv2+)'' \<and> \<not> has_boolean ''Bad''
   \<and> phrase_of ''(GPLv2+)'' = Some ''GPLv2+'' \<and> phrase_of ''Bad'' = Some ''Bad''
   \<and> whole_approved licdb0 (''(GPLv2+)'' @ '' and '' @ ''Bad'') = False
   \<and> phrase_approved licdb0 ''GPLv2+'' = True \<and> phrase_approved licdb0 ''Bad'' = False
   \<and> is_valid_license env0 (Some licdb0) ''licenses.json'' (''(GPLv2+)'' @ '' and '' @ ''Bad'')
       = (Inr False, Some licdb0)"
proof -
  have h1: "db_ok licdb0" by code_simp
  have h2: "\<not> unbalanced (''(GPLv2+)'' @ '' and '' @ ''Bad'')" by code_simp
  have h3: "\<not> has_boolean ''(GPLv2+)''" by code_simp
  have h4: "\<not> has_boolean ''Bad''" by code_simp
  have h5: "phrase_of ''(GPLv2+)'' = Some ''GPLv2+''" by code_simp
  have h6: "phrase_of ''Bad'' = Some ''Bad''" by code_simp
  have h7: "Some licdb0 = Some licdb0
      \<or> (Some licdb0 = None \<and> read_licensedb env0 ''licenses.json'' = Some licdb0)"
    by simp
  have w: "whole_approved licdb0 (''(GPLv2+)'' @ '' and '' @ ''Bad'') = False" by code_simp
  have pa: "phrase_approved licdb0 ''GPLv2+'' = True" by code_simp
  have pb: "phrase_approved licdb0 ''Bad'' = False" by code_simp
  have "is_valid_license env0 (Some licdb0) ''licenses.json'' (''(GPLv2+)'' @ '' and '' @ ''Bad'')
       = (Inr False, Some licdb0)"
    using conjunction_valid_iff [OF h1 h2 h3 h4 h5 h6 h7] by (simp only: w pa pb simp_thms)
  with h1 h2 h3 h4 h5 h6 w pa pb show ?thesis by blast
qed

subsection \<open>The whole-tag shortcut\<close>




text \<open>
  The statement above is about a well formed database. An entry that lacks the
  abbreviation properties altogether is not skipped: \<^verbatim>\<open>strlen\<close> is handed the NULL the
  variables were reset to, and the lookup faults, here before it reaches the MIT entry.
\<close>

lemma entry_without_abbrev_keys_faults:
  "is_valid_license env0 (Some ((''Broken'', [(''approved'', Some ''no'')]) # licdb0))
     ''licenses.json'' ''MIT''
   = (Inl NullDeref, Some ((''Broken'', [(''approved'', Some ''no'')]) # licdb0))"
  by code_simp

section \<open>Properties of the license inspection\<close>

subsection \<open>The loop over the packages\<close>






subsection \<open>A package without a License tag\<close>




subsection \<open>The result of the inspection\<close>

text \<open>
  C5. A run with one after package that has no License tag: \<^verbatim>\<open>check_peer_license\<close> records
  the BAD finding and still returns 1, as it does on every path, so \<^verbatim>\<open>good == seen\<close>
  holds and \<^verbatim>\<open>inspect_license\<close> returns true and adds the OK finding after the BAD one.
\<close>

theorem license_bad_finding_still_passes:
  "inspect_license env0 (ri0\<lparr>peers := [peer_nolicense]\<rparr>) None =
     Inr (True,
          ri0\<lparr>peers := [peer_nolicense],
              found :=
                [\<lparr> f_severity = RESULT_BAD, f_waiver = NOT_WAIVABLE, f_header = HEADER_LICENSE,
                   f_msg = Some ''Empty License Tag in foo-1.0-1.x86_64'', f_details = None,
                   f_remedy = Some REMEDY_LICENSE \<rparr>,
                 \<lparr> f_severity = RESULT_OK, f_waiver = NOT_WAIVABLE, f_header = HEADER_LICENSE,
                   f_msg = None, f_details = None, f_remedy = None \<rparr>],
              worst_result := RESULT_BAD\<rparr>,
          None)"
  by (simp add: inspect_license_def env0_def ri0_def peer_nolicense_def hdr_nolicense_def
      hdr_of_def check_peer_license_def headerGetString_def get_nevra_def add_result_def
      fmt_s_def)

section \<open>Properties of the kernel module inspection\<close>

text \<open>
  C6. Called first, with the statics as initialised, \<^verbatim>\<open>kmod_driver\<close> reports the lost
  parameter of \<open>foo.ko\<close> (version 1.0 to 2.0) at INFO, not waivable. Called on \<open>a.ko\<close>, of a
  package with unchanged name and version, it sets the statics \<^verbatim>\<open>sev\<close> and \<^verbatim>\<open>waiver\<close> to
  VERIFY and waivable by anyone, and nothing sets them back: called on \<open>foo.ko\<close> after
  that, it reports the same lost parameter at VERIFY, waivable by anyone. The gained
  parameter is INFO and not waivable both times.
\<close>

theorem kmod_severity_is_sticky:
  "kmod_driver kenv0 (ri0, kmod_statics_init) kmod_foo =
     Inr (True,
          ri0\<lparr>found := [lost_debug RESULT_INFO NOT_WAIVABLE, gained_trace],
              worst_result := RESULT_INFO\<rparr>,
          \<lparr> sev = RESULT_INFO, waiver = NOT_WAIVABLE \<rparr>)
   \<and> kmod_driver kenv0 (ri0, kmod_statics_init) kmod_a =
     Inr (True, ri0, \<lparr> sev = RESULT_VERIFY, waiver = WAIVABLE_BY_ANYONE \<rparr>)
   \<and> kmod_driver kenv0 (ri0, \<lparr> sev = RESULT_VERIFY, waiver = WAIVABLE_BY_ANYONE \<rparr>) kmod_foo =
     Inr (True,
          ri0\<lparr>found := [lost_debug RESULT_VERIFY WAIVABLE_BY_ANYONE, gained_trace],
              worst_result := RESULT_VERIFY\<rparr>,
          \<lparr> sev = RESULT_VERIFY, waiver = WAIVABLE_BY_ANYONE \<rparr>)"
  by code_simp

theorem kmod_severity_is_sticky_witness:
  "kmod_driver kenv0 (ri0, \<lparr> sev = RESULT_VERIFY, waiver = WAIVABLE_BY_ANYONE \<rparr>) kmod_foo =
     Inr (True,
          ri0\<lparr>found := [lost_debug RESULT_VERIFY WAIVABLE_BY_ANYONE, gained_trace],
              worst_result := RESULT_VERIFY\<rparr>,
          \<lparr> sev = RESULT_VERIFY, waiver = WAIVABLE_BY_ANYONE \<rparr>)"
  using kmod_severity_is_sticky by blast

section \<open>Properties of the upstream inspection\<close>









section \<open>Properties of the metadata inspection\<close>

subsection \<open>What each check adds\<close>

lemma extends_trans:
  assumes a: "extends r1 r2" and b: "extends r2 r3"
  shows "extends r1 r3 \<and> new_findings r1 r3 = new_findings r1 r2 @ new_findings r2 r3"
proof -
  define n1 where "n1 = new_findings r1 r2"
  define n2 where "n2 = new_findings r2 r3"
  have f2: "found r2 = found r1 @ n1" using a by (simp add: extends_def n1_def)
  have f3: "found r3 = found r1 @ n1 @ n2" using b f2 by (simp add: extends_def n2_def)
  have n: "new_findings r1 r3 = n1 @ n2" by (simp add: new_findings_def f3)
  have "extends r1 r3" using a b f3 n by (simp add: extends_def)
  with n show ?thesis by (simp add: n1_def n2_def)
qed

lemma vendor_check_new:
  "extends ri (fst (vendor_check (ri, ret) a))
     \<and> (\<forall>f\<in>set (new_findings ri (fst (vendor_check (ri, ret) a))). f_remedy f = Some REMEDY_VENDOR)
     \<and> (vendor ri \<noteq> None \<and> headerGetString a RPMTAG_VENDOR = None
          \<longrightarrow> new_findings ri (fst (vendor_check (ri, ret) a)) = [])"
  by (auto simp: vendor_check_def Let_def extends_def new_findings_def add_result_def
      split: option.splits)

lemma buildhost_check_new:
  "extends ri (fst (buildhost_check (ri, ret) a))
     \<and> (\<forall>f\<in>set (new_findings ri (fst (buildhost_check (ri, ret) a))). f_remedy f = Some REMEDY_BUILDHOST)
     \<and> (headerGetString a RPMTAG_BUILDHOST = None
          \<longrightarrow> new_findings ri (fst (buildhost_check (ri, ret) a)) = [])"
  by (auto simp: buildhost_check_def Let_def extends_def new_findings_def add_result_def
      split: option.splits)

lemma summary_check_new:
  "extends ri (fst (summary_check env (ri, ret) a))
     \<and> (\<forall>f\<in>set (new_findings ri (fst (summary_check env (ri, ret) a))). f_remedy f = Some REMEDY_BADWORDS)
     \<and> length (new_findings ri (fst (summary_check env (ri, ret) a)))
         \<le> (if headerGetString a RPMTAG_SUMMARY = None then 0 else 1)"
  by (auto simp: summary_check_def Let_def extends_def new_findings_def add_result_def
      split: option.splits)

lemma description_check_new:
  "extends ri (fst (description_check env (ri, ret) a))
     \<and> (\<forall>f\<in>set (new_findings ri (fst (description_check env (ri, ret) a))). f_remedy f = Some REMEDY_BADWORDS)
     \<and> length (new_findings ri (fst (description_check env (ri, ret) a)))
         \<le> (if headerGetString a RPMTAG_DESCRIPTION = None then 0 else 1)"
  by (auto simp: description_check_def Let_def extends_def new_findings_def add_result_def
      split: option.splits)

lemma vendor_drift_new:
  "extends ri (fst (vendor_drift (ri, ret) b a))
     \<and> (\<forall>f\<in>set (new_findings ri (fst (vendor_drift (ri, ret) b a))). is_drift f)
     \<and> (headerGetString b RPMTAG_VENDOR \<noteq> headerGetString a RPMTAG_VENDOR
          \<longrightarrow> new_findings ri (fst (vendor_drift (ri, ret) b a)) \<noteq> [] \<and> \<not> snd (vendor_drift (ri, ret) b a))"
  by (auto simp: vendor_drift_def Let_def extends_def new_findings_def add_result_def is_drift_def
      split: option.splits)

lemma summary_drift_new:
  assumes "headerGetString b RPMTAG_SUMMARY \<noteq> None" "headerGetString a RPMTAG_SUMMARY \<noteq> None"
  shows "\<exists>ri' ret'. summary_drift (ri, ret) b a = Inr (ri', ret') \<and> extends ri ri'
     \<and> (\<forall>f\<in>set (new_findings ri ri'). is_drift f) \<and> (\<not> ret \<longrightarrow> \<not> ret')"
  using assms
  by (auto simp: summary_drift_def Let_def extends_def new_findings_def add_result_def is_drift_def
      split: option.splits)

lemma description_drift_new:
  assumes "headerGetString b RPMTAG_DESCRIPTION \<noteq> None" "headerGetString a RPMTAG_DESCRIPTION \<noteq> None"
  shows "\<exists>ri' ret'. description_drift (ri, ret) b a = Inr (ri', ret') \<and> extends ri ri'
     \<and> (\<forall>f\<in>set (new_findings ri ri'). is_drift f) \<and> (\<not> ret \<longrightarrow> \<not> ret')"
  using assms
  by (auto simp: description_drift_def Let_def extends_def new_findings_def add_result_def is_drift_def
      split: option.splits)


text \<open>
  C9. With a before header, \<^verbatim>\<open>valid_peers\<close> compares the two Summary tags and then the two
  Description tags with \<^verbatim>\<open>strcmp\<close>, without the NULL test its bad-word checks make on the
  same tags. When one of the four is absent the comparison is handed NULL and the
  inspection faults, whatever the settings and the other tags are: the check is not
  skipped.
\<close>

theorem drift_faults_on_absent_tag:
  assumes "headerGetString b RPMTAG_SUMMARY = None \<or> headerGetString a RPMTAG_SUMMARY = None
         \<or> headerGetString b RPMTAG_DESCRIPTION = None
         \<or> headerGetString a RPMTAG_DESCRIPTION = None"
  shows "valid_peers env ri (Some b) a = Inl NullDeref"
proof -
  obtain r4 t4 where st: "description_check env
              (summary_check env (buildhost_check (vendor_check (ri, True) a) a) a) a = (r4, t4)"
    by fastforce
  obtain r5 t5 where vd: "vendor_drift (r4, t4) b a = (r5, t5)" by fastforce
  show ?thesis
  proof (cases "headerGetString b RPMTAG_SUMMARY = None \<or> headerGetString a RPMTAG_SUMMARY = None")
    case True
    then have "summary_drift (r5, t5) b a = Inl NullDeref"
      by (auto simp: summary_drift_def split: option.splits)
    then show ?thesis by (simp add: valid_peers_def st vd)
  next
    case False
    then have "headerGetString b RPMTAG_SUMMARY \<noteq> None"
        "headerGetString a RPMTAG_SUMMARY \<noteq> None" by auto
    from summary_drift_new [OF this, of r5 t5]
    obtain r6 t6 where sd: "summary_drift (r5, t5) b a = Inr (r6, t6)" by blast
    from False assms have "headerGetString b RPMTAG_DESCRIPTION = None
         \<or> headerGetString a RPMTAG_DESCRIPTION = None" by auto
    then have "description_drift (r6, t6) b a = Inl NullDeref"
      by (auto simp: description_drift_def split: option.splits)
    then show ?thesis by (simp add: valid_peers_def st vd sd)
  qed
qed

theorem drift_faults_on_absent_tag_witness:
  "headerGetString meta_nosummary RPMTAG_SUMMARY = None
   \<and> valid_peers env0 meta_ri (Some meta_before) meta_nosummary = Inl NullDeref"
proof -
  have h: "headerGetString meta_nosummary RPMTAG_SUMMARY = None" by code_simp
  then have "headerGetString meta_before RPMTAG_SUMMARY = None
         \<or> headerGetString meta_nosummary RPMTAG_SUMMARY = None
         \<or> headerGetString meta_before RPMTAG_DESCRIPTION = None
         \<or> headerGetString meta_nosummary RPMTAG_DESCRIPTION = None"
    by simp
  from drift_faults_on_absent_tag [OF this, of env0 meta_ri] h show ?thesis by simp
qed

text \<open>
  Away from that fault (no before header, or Summary and Description present in both
  headers) \<^verbatim>\<open>valid_peers\<close> returns, and its new findings are such that:
  the comparison with the configured vendor adds no finding when the after header has no
  Vendor tag; the build host check adds none when it has no Build Host tag; there is at
  most one bad-word finding for each of Summary and Description that the after header
  has; without a before header there is no drift finding (a finding without a remedy);
  with a before header whose Vendor tag differs from the after header's, absent on one
  side included, the result is false and a drift finding is recorded; and every drift
  finding is VERIFY and waivable by anyone.
\<close>

lemma metadata_checks_optional:
  assumes "before_h = None \<or>
           (\<exists>b. before_h = Some b
              \<and> headerGetString b RPMTAG_SUMMARY \<noteq> None
              \<and> headerGetString b RPMTAG_DESCRIPTION \<noteq> None
              \<and> headerGetString a RPMTAG_SUMMARY \<noteq> None
              \<and> headerGetString a RPMTAG_DESCRIPTION \<noteq> None)"
  shows "\<exists>ret ri' new.
     valid_peers env ri before_h a = Inr (ret, ri') \<and> found ri' = found ri @ new
     \<and> (vendor ri \<noteq> None \<and> headerGetString a RPMTAG_VENDOR = None
          \<longrightarrow> (\<forall>f\<in>set new. f_remedy f \<noteq> Some REMEDY_VENDOR))
     \<and> (headerGetString a RPMTAG_BUILDHOST = None
          \<longrightarrow> (\<forall>f\<in>set new. f_remedy f \<noteq> Some REMEDY_BUILDHOST))
     \<and> length (filter (\<lambda>f. f_remedy f = Some REMEDY_BADWORDS) new)
          \<le> (if headerGetString a RPMTAG_SUMMARY = None then 0 else 1)
            + (if headerGetString a RPMTAG_DESCRIPTION = None then 0 else 1)
     \<and> (before_h = None \<longrightarrow> (\<forall>f\<in>set new. f_remedy f \<noteq> None))
     \<and> (\<forall>b. before_h = Some b
            \<and> headerGetString b RPMTAG_VENDOR \<noteq> headerGetString a RPMTAG_VENDOR
          \<longrightarrow> \<not> ret \<and> (\<exists>f\<in>set new. f_remedy f = None))
     \<and> (\<forall>f\<in>set new. f_remedy f = None
          \<longrightarrow> f_severity f = RESULT_VERIFY \<and> f_waiver f = WAIVABLE_BY_ANYONE)"
proof -
  obtain r1 t1 where s1: "vendor_check (ri, True) a = (r1, t1)" by fastforce
  obtain r2 t2 where s2: "buildhost_check (r1, t1) a = (r2, t2)" by fastforce
  obtain r3 t3 where s3: "summary_check env (r2, t2) a = (r3, t3)" by fastforce
  obtain r4 t4 where s4: "description_check env (r3, t3) a = (r4, t4)" by fastforce
  define n1 where "n1 = new_findings ri r1"
  define n2 where "n2 = new_findings r1 r2"
  define n3 where "n3 = new_findings r2 r3"
  define n4 where "n4 = new_findings r3 r4"
  have e1: "extends ri r1" and p1: "\<forall>f\<in>set n1. f_remedy f = Some REMEDY_VENDOR"
    and q1: "vendor ri \<noteq> None \<and> headerGetString a RPMTAG_VENDOR = None \<longrightarrow> n1 = []"
    using vendor_check_new [of ri True a] by (simp_all add: s1 n1_def)
  have e2: "extends r1 r2" and p2: "\<forall>f\<in>set n2. f_remedy f = Some REMEDY_BUILDHOST"
    and q2: "headerGetString a RPMTAG_BUILDHOST = None \<longrightarrow> n2 = []"
    using buildhost_check_new [of r1 t1 a] by (simp_all add: s2 n2_def)
  have e3: "extends r2 r3" and p3: "\<forall>f\<in>set n3. f_remedy f = Some REMEDY_BADWORDS"
    and q3: "length n3 \<le> (if headerGetString a RPMTAG_SUMMARY = None then 0 else 1)"
    using summary_check_new [of r2 env t2 a] by (simp_all add: s3 n3_def)
  have e4: "extends r3 r4" and p4: "\<forall>f\<in>set n4. f_remedy f = Some REMEDY_BADWORDS"
    and q4: "length n4 \<le> (if headerGetString a RPMTAG_DESCRIPTION = None then 0 else 1)"
    using description_check_new [of r3 env t3 a] by (simp_all add: s4 n4_def)
  have e12: "extends ri r2" and n12: "new_findings ri r2 = n1 @ n2"
    using extends_trans [OF e1 e2] by (simp_all add: n1_def n2_def)
  have e13: "extends ri r3" and n13: "new_findings ri r3 = n1 @ n2 @ n3"
    using extends_trans [OF e12 e3] by (simp_all add: n12 n3_def)
  have e14: "extends ri r4" and n14: "new_findings ri r4 = n1 @ n2 @ n3 @ n4"
    using extends_trans [OF e13 e4] by (simp_all add: n13 n4_def)
  have f14: "found r4 = found ri @ n1 @ n2 @ n3 @ n4"
    using e14 n14 by (simp add: extends_def)
  have st: "description_check env
              (summary_check env (buildhost_check (vendor_check (ri, True) a) a) a) a = (r4, t4)"
    by (simp add: s1 s2 s3 s4)
  have bad1: "filter (\<lambda>f. f_remedy f = Some REMEDY_BADWORDS) n1 = []"
    using p1 by (auto simp: filter_empty_conv)
  have bad2: "filter (\<lambda>f. f_remedy f = Some REMEDY_BADWORDS) n2 = []"
    using p2 by (auto simp: filter_empty_conv)
  have badcount: "length (filter (\<lambda>f. f_remedy f = Some REMEDY_BADWORDS) (n1 @ n2 @ n3 @ n4))
      \<le> (if headerGetString a RPMTAG_SUMMARY = None then 0 else 1)
        + (if headerGetString a RPMTAG_DESCRIPTION = None then 0 else 1)"
  proof -
    have "length (filter (\<lambda>f. f_remedy f = Some REMEDY_BADWORDS) (n1 @ n2 @ n3 @ n4))
        \<le> length n3 + length n4"
      by (simp add: bad1 bad2 add_mono)
    with q3 q4 show ?thesis by linarith
  qed
  show ?thesis
  proof (cases before_h)
    case None
    have "valid_peers env ri before_h a = Inr (t4, r4)"
      by (simp add: valid_peers_def st None)
    moreover have "\<forall>f\<in>set (n1 @ n2 @ n3 @ n4). f_remedy f \<noteq> None"
      using p1 p2 p3 p4 by auto
    ultimately show ?thesis
      using f14 None p1 p2 p3 p4 q1 q2 badcount
      by (intro exI[of _ t4] exI[of _ r4] exI[of _ "n1 @ n2 @ n3 @ n4"]) auto
  next
    case (Some b)
    with assms have present:
      "headerGetString b RPMTAG_SUMMARY \<noteq> None" "headerGetString b RPMTAG_DESCRIPTION \<noteq> None"
      "headerGetString a RPMTAG_SUMMARY \<noteq> None" "headerGetString a RPMTAG_DESCRIPTION \<noteq> None"
      by auto
    obtain r5 t5 where s5: "vendor_drift (r4, t4) b a = (r5, t5)" by fastforce
    define n5 where "n5 = new_findings r4 r5"
    have e5: "extends r4 r5" and p5: "\<forall>f\<in>set n5. is_drift f"
      and q5: "headerGetString b RPMTAG_VENDOR \<noteq> headerGetString a RPMTAG_VENDOR
                 \<longrightarrow> n5 \<noteq> [] \<and> \<not> t5"
      using vendor_drift_new [of r4 t4 b a] by (simp_all add: s5 n5_def)
    obtain r6 t6 where s6: "summary_drift (r5, t5) b a = Inr (r6, t6)" and e6: "extends r5 r6"
      and p6: "\<forall>f\<in>set (new_findings r5 r6). is_drift f" and m6: "\<not> t5 \<longrightarrow> \<not> t6"
      using summary_drift_new [OF present(1) present(3), of r5 t5] by blast
    obtain r7 t7 where s7: "description_drift (r6, t6) b a = Inr (r7, t7)" and e7: "extends r6 r7"
      and p7: "\<forall>f\<in>set (new_findings r6 r7). is_drift f" and m7: "\<not> t6 \<longrightarrow> \<not> t7"
      using description_drift_new [OF present(2) present(4), of r6 t6] by blast
    define n6 where "n6 = new_findings r5 r6"
    define n7 where "n7 = new_findings r6 r7"
    have e15: "extends ri r5" and n15: "new_findings ri r5 = (n1 @ n2 @ n3 @ n4) @ n5"
      using extends_trans [OF e14 e5] by (simp_all add: n14 n5_def)
    have e16: "extends ri r6" and n16: "new_findings ri r6 = ((n1 @ n2 @ n3 @ n4) @ n5) @ n6"
      using extends_trans [OF e15 e6] by (simp_all add: n15 n6_def)
    have e17: "extends ri r7" and n17: "new_findings ri r7 = (((n1 @ n2 @ n3 @ n4) @ n5) @ n6) @ n7"
      using extends_trans [OF e16 e7] by (simp_all add: n16 n7_def)
    have f17: "found r7 = found ri @ n1 @ n2 @ n3 @ n4 @ n5 @ n6 @ n7"
      using e17 n17 by (simp add: extends_def)
    have vp: "valid_peers env ri before_h a = Inr (t7, r7)"
      by (simp add: valid_peers_def st Some s5 s6 s7)
    have d567: "\<forall>f\<in>set (n5 @ n6 @ n7). is_drift f"
      using p5 p6 p7 by (auto simp: n6_def n7_def)
    have bad567: "filter (\<lambda>f. f_remedy f = Some REMEDY_BADWORDS) (n5 @ n6 @ n7) = []"
      using d567 by (auto simp: filter_empty_conv is_drift_def)
    have cnt: "length (filter (\<lambda>f. f_remedy f = Some REMEDY_BADWORDS)
                 (n1 @ n2 @ n3 @ n4 @ n5 @ n6 @ n7))
        \<le> (if headerGetString a RPMTAG_SUMMARY = None then 0 else 1)
          + (if headerGetString a RPMTAG_DESCRIPTION = None then 0 else 1)"
      using badcount bad567 by simp
    have c1: "vendor ri \<noteq> None \<and> headerGetString a RPMTAG_VENDOR = None
          \<longrightarrow> (\<forall>f\<in>set (n1 @ n2 @ n3 @ n4 @ n5 @ n6 @ n7). f_remedy f \<noteq> Some REMEDY_VENDOR)"
      using q1 p2 p3 p4 d567 by (auto simp: is_drift_def)
    have c2: "headerGetString a RPMTAG_BUILDHOST = None
          \<longrightarrow> (\<forall>f\<in>set (n1 @ n2 @ n3 @ n4 @ n5 @ n6 @ n7). f_remedy f \<noteq> Some REMEDY_BUILDHOST)"
      using p1 q2 p3 p4 d567 by (auto simp: is_drift_def)
    have c5: "headerGetString b RPMTAG_VENDOR \<noteq> headerGetString a RPMTAG_VENDOR
          \<longrightarrow> \<not> t7 \<and> (\<exists>f\<in>set (n1 @ n2 @ n3 @ n4 @ n5 @ n6 @ n7). f_remedy f = None)"
    proof
      assume "headerGetString b RPMTAG_VENDOR \<noteq> headerGetString a RPMTAG_VENDOR"
      with q5 have ne: "n5 \<noteq> []" and "\<not> t5" by auto
      with m6 m7 have "\<not> t7" by simp
      moreover from ne obtain f where "f \<in> set n5" by (cases n5) auto
      with p5 have "f \<in> set (n1 @ n2 @ n3 @ n4 @ n5 @ n6 @ n7) \<and> f_remedy f = None"
        by (auto simp: is_drift_def)
      ultimately show "\<not> t7 \<and> (\<exists>f\<in>set (n1 @ n2 @ n3 @ n4 @ n5 @ n6 @ n7). f_remedy f = None)"
        by blast
    qed
    have c6: "\<forall>f\<in>set (n1 @ n2 @ n3 @ n4 @ n5 @ n6 @ n7). f_remedy f = None
          \<longrightarrow> f_severity f = RESULT_VERIFY \<and> f_waiver f = WAIVABLE_BY_ANYONE"
      using p1 p2 p3 p4 d567 by (auto simp: is_drift_def)
    show ?thesis
      using vp f17 Some cnt c1 c2 c5 c6
      by (intro exI[of _ t7] exI[of _ r7] exI[of _ "n1 @ n2 @ n3 @ n4 @ n5 @ n6 @ n7"]) simp
  qed
qed

end
